theory Spec2Isabelle
  imports Main
begin

section \<open>Media reference extraction (youtube\_to\_s3\_api.py, extract\_youtube\_url)\<close>

text \<open>
  Every regular expression of \<^verbatim>\<open>extract_youtube_url\<close> has the same shape: a literal
  text (or an alternation of literal texts) followed by the capture group
  \<^verbatim>\<open>([a-zA-Z0-9_-]{11})\<close>.  A pattern is therefore modelled by the list of its literal
  alternatives, in the order in which the backtracking matcher of \<^verbatim>\<open>re\<close> tries them.
  A text is the list of its characters; a character outside ASCII matches neither a
  literal nor the class, so it does not matter whether it is one element or several.
\<close>

definition is_id_char :: "char \<Rightarrow> bool" where
  "is_id_char c \<longleftrightarrow>
     c \<in> set ''abcdefghijklmnopqrstuvwxyzABCDEFGHIJKLMNOPQRSTUVWXYZ0123456789_-''"

text \<open>One literal alternative followed by the group, anchored at the head of the text.\<close>

definition match_here :: "string \<Rightarrow> string \<Rightarrow> string option" where
  "match_here lit s =
     (let tok = take 11 (drop (length lit) s)
      in if take (length lit) s = lit \<and> length tok = 11 \<and> list_all is_id_char tok
         then Some tok else None)"

text \<open>The alternatives of one pattern at one position: the first that matches wins.\<close>

fun first_alt :: "string list \<Rightarrow> string \<Rightarrow> string option" where
  "first_alt [] s = None"
| "first_alt (lit # lits) s =
     (case match_here lit s of
        Some tok \<Rightarrow> Some tok
      | None \<Rightarrow> first_alt lits s)"

text \<open>
  \<^verbatim>\<open>re.search\<close>: the leftmost position at which the pattern matches; the value is
  \<^verbatim>\<open>match.group(1)\<close>, and \<open>None\<close> when there is no match.
\<close>

fun re_search :: "string list \<Rightarrow> string \<Rightarrow> string option" where
  "re_search alts [] = first_alt alts []"
| "re_search alts (c # cs) =
     (case first_alt alts (c # cs) of
        Some tok \<Rightarrow> Some tok
      | None \<Rightarrow> re_search alts cs)"

definition embed_pattern :: "string list" where
  "embed_pattern = [''youtube.com/embed/'']"

definition short_pattern :: "string list" where
  "short_pattern = [''youtu.be/'']"

definition watch_pattern :: "string list" where
  "watch_pattern = [''youtube.com/watch?v='']"

definition malformed_short :: "string list" where
  "malformed_short = [''youtu.be/watch?v='']"

text \<open>
  \<^verbatim>\<open>(?:youtube\.com|youtu\.be)(?:/|/watch\?v=|/embed/)([a-zA-Z0-9_-]{11})\<close>: the outer
  alternation is tried first to last, and inside each the inner one.
\<close>

definition video_id_pattern :: "string list" where
  "video_id_pattern =
     [''youtube.com/'', ''youtube.com/watch?v='', ''youtube.com/embed/'',
      ''youtu.be/'', ''youtu.be/watch?v='', ''youtu.be/embed/'']"

definition canonical_url :: "string \<Rightarrow> string" where
  "canonical_url video_id = ''https://www.youtube.com/watch?v='' @ video_id"

definition blacklist :: "string list" where
  "blacklist = [''watch'', ''embed'', ''https'', ''http'']"

definition extract_youtube_url :: "string \<Rightarrow> string option" where
  "extract_youtube_url html_content =
     (case re_search embed_pattern html_content of
        Some video_id \<Rightarrow> Some (canonical_url video_id)
      | None \<Rightarrow>
     (case re_search short_pattern html_content of
        Some video_id \<Rightarrow> Some (canonical_url video_id)
      | None \<Rightarrow>
     (case re_search watch_pattern html_content of
        Some video_id \<Rightarrow> Some (canonical_url video_id)
      | None \<Rightarrow>
     (case re_search malformed_short html_content of
        Some video_id \<Rightarrow> Some (canonical_url video_id)
      | None \<Rightarrow>
     (case re_search video_id_pattern html_content of
        Some video_id \<Rightarrow>
          if video_id \<notin> set blacklist then Some (canonical_url video_id) else None
      | None \<Rightarrow> None)))))"

text \<open>
  The same chain with the validation of pattern 5 left out; it is only compared with
  \<open>extract_youtube_url\<close>.
\<close>

definition extract_without_blacklist :: "string \<Rightarrow> string option" where
  "extract_without_blacklist html_content =
     (case re_search embed_pattern html_content of
        Some video_id \<Rightarrow> Some (canonical_url video_id)
      | None \<Rightarrow>
     (case re_search short_pattern html_content of
        Some video_id \<Rightarrow> Some (canonical_url video_id)
      | None \<Rightarrow>
     (case re_search watch_pattern html_content of
        Some video_id \<Rightarrow> Some (canonical_url video_id)
      | None \<Rightarrow>
     (case re_search malformed_short html_content of
        Some video_id \<Rightarrow> Some (canonical_url video_id)
      | None \<Rightarrow>
     (case re_search video_id_pattern html_content of
        Some video_id \<Rightarrow> Some (canonical_url video_id)
      | None \<Rightarrow> None)))))"








section \<open>Enumeration of the source (youtube\_to\_s3\_api.py, fetch\_posts\_from\_api)\<close>

text \<open>
  A post object of a page, with the fields the loop reads: \<^verbatim>\<open>str(post.get('id'))\<close>,
  the rendered title, the rendered content and the date.  The title is kept as the list
  of its code points (\<open>unicode\<close>), because it is later cut to 1000 characters.
\<close>

type_synonym unicode = "nat list"

record wp_post =
  wp_id :: string
  wp_title :: unicode
  wp_content :: string
  wp_date :: string

text \<open>
  The header \<^verbatim>\<open>X-WP-TotalPages\<close> as the loop reads it: absent (\<^verbatim>\<open>headers.get\<close>
  gives \<^verbatim>\<open>None\<close>), the empty text, a text on which \<^verbatim>\<open>int()\<close> raises
  \<^verbatim>\<open>ValueError\<close>, or a text that \<^verbatim>\<open>int()\<close> reads as a number.
\<close>

datatype total_pages_header = Absent | Empty_text | Not_a_number | Number int

record http_response =
  status_code :: nat
  json_body :: "wp_post list option"
  x_wp_totalpages :: total_pages_header

text \<open>
  In a response, \<open>json_body\<close> is \<open>None\<close> when \<^verbatim>\<open>response.json()\<close> raises; otherwise
  the body is taken to be a list of post objects.
\<close>

text \<open>
  What one \<^verbatim>\<open>get\<close> does: it raises \<^verbatim>\<open>requests.exceptions.Timeout\<close>, another
  \<^verbatim>\<open>RequestException\<close>, or returns a response.
\<close>

datatype fetch_reply = Timeout | Connection_error | Reply http_response

text \<open>
  The remote source: the reply to the request numbered \<open>n\<close> (counted from 0 within one
  enumeration) for page \<open>p\<close>.  The same page may be answered differently when it is
  asked again.
\<close>

type_synonym source_api = "nat \<Rightarrow> nat \<Rightarrow> fetch_reply"

text \<open>An entry of \<^verbatim>\<open>posts\<close>: the keys \<^verbatim>\<open>id\<close>, \<^verbatim>\<open>title\<close>, \<^verbatim>\<open>youtube_url\<close>, \<^verbatim>\<open>date\<close>.\<close>

record candidate =
  cand_id :: string
  cand_title :: unicode
  cand_youtube_url :: string
  cand_date :: string

text \<open>\<^verbatim>\<open>max_posts and len(posts) >= max_posts\<close>\<close>

definition max_reached :: "int option \<Rightarrow> candidate list \<Rightarrow> bool" where
  "max_reached max_posts posts =
     (case max_posts of
        None \<Rightarrow> False
      | Some m \<Rightarrow> m \<noteq> 0 \<and> m \<le> int (length posts))"

text \<open>The loop \<^verbatim>\<open>for post in page_posts\<close>, with its \<^verbatim>\<open>continue\<close> and \<^verbatim>\<open>break\<close>.\<close>

fun scan_page :: "string list \<Rightarrow> int option \<Rightarrow> wp_post list \<Rightarrow> candidate list \<Rightarrow> candidate list" where
  "scan_page uploaded_videos max_posts [] posts = posts"
| "scan_page uploaded_videos max_posts (post # rest) posts =
     (if wp_id post \<in> set uploaded_videos then scan_page uploaded_videos max_posts rest posts
      else
        (case extract_youtube_url (wp_content post) of
           None \<Rightarrow> scan_page uploaded_videos max_posts rest posts
         | Some url \<Rightarrow>
             (let posts' = posts @ [\<lparr>cand_id = wp_id post, cand_title = wp_title post,
                                    cand_youtube_url = url, cand_date = wp_date post\<rparr>]
              in if max_reached max_posts posts' then posts'
                 else scan_page uploaded_videos max_posts rest posts')))"

text \<open>
  The loop \<^verbatim>\<open>while True\<close>.  It need not end (a source that answers every page with
  posts and no page count), so its value is an option and \<open>None\<close> is a run that never
  returns.  \<open>requested\<close> logs the pages asked for so far; the value is the list
  \<^verbatim>\<open>posts\<close> with that log.
\<close>

partial_function (option) fetch_loop ::
  "source_api \<Rightarrow> string list \<Rightarrow> int option \<Rightarrow> nat \<Rightarrow> candidate list \<Rightarrow> nat list
    \<Rightarrow> (candidate list \<times> nat list) option" where
  "fetch_loop api uploaded_videos max_posts page posts requested =
     (case api (length requested) page of
        Timeout \<Rightarrow> Some (posts, requested @ [page])
      | Connection_error \<Rightarrow> Some (posts, requested @ [page])
      | Reply response \<Rightarrow>
          if status_code response \<noteq> 200 then Some (posts, requested @ [page])
          else
            (case json_body response of
               None \<Rightarrow> Some (posts, requested @ [page])
             | Some page_posts \<Rightarrow>
                 if page_posts = [] then Some (posts, requested @ [page])
                 else if max_reached max_posts (scan_page uploaded_videos max_posts page_posts posts)
                 then Some (scan_page uploaded_videos max_posts page_posts posts, requested @ [page])
                 else
                   (case x_wp_totalpages response of
                      Number total_pages \<Rightarrow>
                        if total_pages \<le> int page
                        then Some (scan_page uploaded_videos max_posts page_posts posts,
                                   requested @ [page])
                        else fetch_loop api uploaded_videos max_posts (page + 1)
                               (scan_page uploaded_videos max_posts page_posts posts)
                               (requested @ [page])
                    | Not_a_number \<Rightarrow>
                        Some (scan_page uploaded_videos max_posts page_posts posts,
                              requested @ [page])
                    | Absent \<Rightarrow>
                        fetch_loop api uploaded_videos max_posts (page + 1)
                          (scan_page uploaded_videos max_posts page_posts posts)
                          (requested @ [page])
                    | Empty_text \<Rightarrow>
                        fetch_loop api uploaded_videos max_posts (page + 1)
                          (scan_page uploaded_videos max_posts page_posts posts)
                          (requested @ [page]))))"

declare fetch_loop.simps [code]

definition fetch_posts_from_api ::
  "source_api \<Rightarrow> string list \<Rightarrow> int option \<Rightarrow> (candidate list \<times> nat list) option" where
  "fetch_posts_from_api api uploaded_videos max_posts =
     fetch_loop api uploaded_videos max_posts 1 [] []"


section \<open>The counting script's page loop (robust\_count.py)\<close>

text \<open>
  \<^verbatim>\<open>extract_youtube_url\<close> of robust\_count.py: whether one of three literals is followed
  by at least one character of \<^verbatim>\<open>[a-zA-Z0-9_-]\<close> somewhere in the text.
\<close>

definition match_some :: "string \<Rightarrow> string \<Rightarrow> bool" where
  "match_some lit s \<longleftrightarrow>
     take (length lit) s = lit \<and>
     (case drop (length lit) s of [] \<Rightarrow> False | c # _ \<Rightarrow> is_id_char c)"

fun search_some :: "string \<Rightarrow> string \<Rightarrow> bool" where
  "search_some lit [] = match_some lit []"
| "search_some lit (c # cs) = (match_some lit (c # cs) \<or> search_some lit cs)"

definition count_extract_youtube_url :: "string \<Rightarrow> bool" where
  "count_extract_youtube_url html_content =
     list_ex (\<lambda>lit. search_some lit html_content)
       [''youtube.com/embed/'', ''youtu.be/'', ''youtube.com/watch?v='']"

text \<open>
  What the loop does to the outside, in order: a request for a page, or a
  \<^verbatim>\<open>time.sleep\<close> (in tenths of a second, so \<^verbatim>\<open>sleep(0.1)\<close> is \<open>Sleep 1\<close>).
\<close>

datatype event = Get nat | Sleep nat

text \<open>Why the loop was left.\<close>

datatype stop = All_pages | Too_many_errors | Empty_page | Unexpected_error

definition max_consecutive_errors :: nat where
  "max_consecutive_errors = 5"

text \<open>
  The loop \<^verbatim>\<open>while page <= total_pages\<close>.  Its value is the reason it stopped, the
  final \<^verbatim>\<open>page\<close> and \<^verbatim>\<open>video_count\<close>, and the events.  \<open>n\<close> numbers the requests.
  The script's session retries a 429 or a 5xx three times by itself and then raises
  \<^verbatim>\<open>RetryError\<close>, a \<^verbatim>\<open>RequestException\<close>: the loop meets such a page as
  \<open>Connection_error\<close>.
  Whether a body that is not JSON raises a \<^verbatim>\<open>RequestException\<close> (and is retried) or a
  plain \<^verbatim>\<open>ValueError\<close> (which ends the script in its outer handler) depends on the
  version of the HTTP library, which the repository does not fix: \<open>json_error_retried\<close>.
\<close>

function count_loop ::
  "source_api \<Rightarrow> bool \<Rightarrow> int \<Rightarrow> nat \<Rightarrow> nat \<Rightarrow> nat \<Rightarrow> nat \<Rightarrow> event list
    \<Rightarrow> stop \<times> nat \<times> nat \<times> event list" where
  "count_loop api json_error_retried total_pages n page consecutive_errors video_count events =
     (if int page \<le> total_pages then
        (case api n page of
           Timeout \<Rightarrow>
             if max_consecutive_errors \<le> consecutive_errors + 1
             then (Too_many_errors, page, video_count, events @ [Get page])
             else count_loop api json_error_retried total_pages (n + 1) page
                    (consecutive_errors + 1) video_count (events @ [Get page, Sleep 30])
         | Connection_error \<Rightarrow>
             if max_consecutive_errors \<le> consecutive_errors + 1
             then (Too_many_errors, page, video_count, events @ [Get page])
             else count_loop api json_error_retried total_pages (n + 1) page
                    (consecutive_errors + 1) video_count (events @ [Get page, Sleep 30])
         | Reply response \<Rightarrow>
             if status_code response \<noteq> 200 then
               if max_consecutive_errors \<le> consecutive_errors + 1
               then (Too_many_errors, page, video_count, events @ [Get page])
               else count_loop api json_error_retried total_pages (n + 1) page
                      (consecutive_errors + 1) video_count (events @ [Get page, Sleep 20])
             else
               (case json_body response of
                  None \<Rightarrow>
                    if \<not> json_error_retried
                    then (Unexpected_error, page, video_count, events @ [Get page])
                    else if max_consecutive_errors \<le> consecutive_errors + 1
                    then (Too_many_errors, page, video_count, events @ [Get page])
                    else count_loop api json_error_retried total_pages (n + 1) page
                           (consecutive_errors + 1) video_count (events @ [Get page, Sleep 30])
                | Some posts \<Rightarrow>
                    if posts = [] then (Empty_page, page, video_count, events @ [Get page])
                    else count_loop api json_error_retried total_pages (n + 1) (page + 1) 0
                           (video_count +
                              length (filter (\<lambda>post. count_extract_youtube_url (wp_content post)) posts))
                           (events @ [Get page, Sleep 1])))
      else (All_pages, page, video_count, events))"
  by pat_completeness auto
termination
  by (relation "measures
        [\<lambda>(api, jr, total_pages, n, page, ce, vc, ev). nat (total_pages - int page + 1),
         \<lambda>(api, jr, total_pages, n, page, ce, vc, ev). max_consecutive_errors - ce]")
     (auto simp: max_consecutive_errors_def)

declare count_loop.simps [simp del]

text \<open>
  The loop as the script enters it: \<^verbatim>\<open>page = 1\<close>, \<^verbatim>\<open>consecutive_errors = 0\<close>, and
  \<^verbatim>\<open>video_count\<close> still 0.  \<open>total_pages\<close> was read from the response to a request made
  before the loop; the requests of the loop are numbered from 0.
\<close>

definition page_loop :: "source_api \<Rightarrow> bool \<Rightarrow> int \<Rightarrow> stop \<times> nat \<times> nat \<times> event list" where
  "page_loop api json_error_retried total_pages =
     count_loop api json_error_retried total_pages 0 1 0 0 []"

text \<open>
  What the counting script's loop counts in \<^verbatim>\<open>consecutive_errors\<close>: a timeout, a request
  exception, a status other than 200 and, where the HTTP library raises it as a request
  exception, a body that is not JSON.  \<open>retry_delay\<close> is the pause, in tenths of a second,
  that the loop makes before it asks again: \<^verbatim>\<open>sleep(2)\<close> after a status other than 200,
  \<^verbatim>\<open>sleep(3)\<close> in the two exception handlers.
\<close>

definition fails :: "bool \<Rightarrow> fetch_reply \<Rightarrow> bool" where
  "fails json_error_retried reply =
     (case reply of
        Timeout \<Rightarrow> True
      | Connection_error \<Rightarrow> True
      | Reply r \<Rightarrow> status_code r \<noteq> 200 \<or> (json_body r = None \<and> json_error_retried))"

definition retry_delay :: "fetch_reply \<Rightarrow> nat" where
  "retry_delay reply =
     (case reply of Reply r \<Rightarrow> if status_code r \<noteq> 200 then 20 else 30 | _ \<Rightarrow> 30)"

text \<open>The pages that a list of events asked for, in order.\<close>

definition requested_pages :: "event list \<Rightarrow> nat list" where
  "requested_pages events = concat (map (\<lambda>e. case e of Get p \<Rightarrow> [p] | Sleep d \<Rightarrow> []) events)"

text \<open>
  The invariant of the loop: \<open>n\<close> requests have been made, and the last
  \<open>consecutive_errors\<close> of them asked for the present page and failed.
\<close>

definition counted :: "source_api \<Rightarrow> bool \<Rightarrow> nat \<Rightarrow> nat \<Rightarrow> nat \<Rightarrow> event list \<Rightarrow> bool" where
  "counted api json_error_retried n page consecutive_errors events \<longleftrightarrow>
     length (requested_pages events) = n \<and> consecutive_errors \<le> n \<and>
     (\<forall>k < consecutive_errors.
        requested_pages events ! (n - 1 - k) = page \<and>
        fails json_error_retried (api (n - 1 - k) page))"


section \<open>The transfer of one item (youtube\_to\_s3\_api.py, download\_and\_stream\_to\_s3)\<close>

datatype py_error = OSError | ValueError | EOFError

text \<open>An object put into the bucket: its key and the four metadata fields.\<close>

record s3_object =
  s3_key :: string
  meta_post_id :: string
  meta_post_title :: string
  meta_youtube_url :: string
  meta_upload_date :: string

text \<open>
  What the ledger file holds: a JSON list of identifiers, or a text that is not JSON (the
  empty or partial text that a failed write leaves behind).
\<close>

datatype ledger_text = Entries "string list" | Cut_short

text \<open>
  The world outside the process: the ledger file \<^verbatim>\<open>uploaded_videos.json\<close> (\<open>None\<close>: no
  such file), its backup written by verify\_uploads.py, the temporary files with their
  sizes in bytes, and the objects uploaded to the bucket, in order.
\<close>

record world =
  ledger_file :: "ledger_text option"
  backup_file :: "string list option"
  tmp_files :: "string \<rightharpoonup> nat"
  s3_objects :: "s3_object list"

text \<open>
  The key \<^verbatim>\<open>ext\<close> of the dictionary that the download returns: absent, present with the
  value \<^verbatim>\<open>None\<close>, or present with a text.
\<close>

datatype ext_field = No_ext | Null_ext | Ext string

text \<open>\<^verbatim>\<open>info.get('ext', 'mp4')\<close> as it is formatted into the key.\<close>

definition actual_ext :: "ext_field \<Rightarrow> string" where
  "actual_ext ext = (case ext of No_ext \<Rightarrow> ''mp4'' | Null_ext \<Rightarrow> ''None'' | Ext e \<Rightarrow> e)"

text \<open>
  What \<^verbatim>\<open>ydl.extract_info(youtube_url, download=True)\<close> does: it raises or returns; in
  both cases it leaves the temporary file absent (\<open>None\<close>) or with some size.  When it
  returns, the second field is the key \<^verbatim>\<open>ext\<close> of the result.
\<close>

datatype download = Download_error "nat option" | Downloaded "nat option" ext_field

text \<open>
  What the outside does during one call: the path \<^verbatim>\<open>NamedTemporaryFile\<close> creates
  (\<open>None\<close>: it raises), the download, whether the upload raises, whether
  \<^verbatim>\<open>os.remove\<close> raises, and the clock.
\<close>

record transfer_env =
  tmp_name :: "string option"
  download :: download
  upload_raises :: bool
  remove_raises :: bool
  now :: string

text \<open>\<^verbatim>\<open>text.encode('ascii', errors='ignore').decode('ascii')\<close>\<close>

definition sanitize_metadata :: "unicode \<Rightarrow> string" where
  "sanitize_metadata text = map char_of (filter (\<lambda>c. c < 128) text)"

text \<open>
  The body of the \<^verbatim>\<open>try\<close>: the value returned (an exception caught by
  \<^verbatim>\<open>except Exception\<close> gives \<open>False\<close>) and the world afterwards.
\<close>

definition transfer_body ::
  "transfer_env \<Rightarrow> world \<Rightarrow> string \<Rightarrow> string \<Rightarrow> string \<Rightarrow> unicode \<Rightarrow> bool \<times> world" where
  "transfer_body env w tmp_path youtube_url post_id post_title =
     (case download env of
        Download_error file \<Rightarrow> (False, w\<lparr>tmp_files := (tmp_files w)(tmp_path := file)\<rparr>)
      | Downloaded file ext \<Rightarrow>
          (let w' = w\<lparr>tmp_files := (tmp_files w)(tmp_path := file)\<rparr>
           in case tmp_files w' tmp_path of
                None \<Rightarrow> (False, w')
              | Some file_size \<Rightarrow>
                  if file_size = 0 then (False, w')
                  else if upload_raises env then (False, w')
                  else
                    (True,
                     w'\<lparr>s3_objects := s3_objects w' @
                        [\<lparr>s3_key = ''videos/'' @ post_id @ ''.'' @ actual_ext ext,
                          meta_post_id = post_id,
                          meta_post_title = sanitize_metadata (take 1000 post_title),
                          meta_youtube_url = take 1000 youtube_url,
                          meta_upload_date = now env\<rparr>]\<rparr>)))"

text \<open>The \<^verbatim>\<open>finally\<close> block; a failure of \<^verbatim>\<open>os.remove\<close> is only printed.\<close>

definition cleanup :: "transfer_env \<Rightarrow> world \<Rightarrow> string \<Rightarrow> world" where
  "cleanup env w tmp_path =
     (if tmp_files w tmp_path \<noteq> None
      then if remove_raises env then w
           else w\<lparr>tmp_files := (tmp_files w)(tmp_path := None)\<rparr>
      else w)"

text \<open>
  The temporary file is created (empty) before the \<^verbatim>\<open>try\<close>, so a failure to create
  it leaves the function as an exception.
\<close>

definition download_and_stream_to_s3 ::
  "transfer_env \<Rightarrow> world \<Rightarrow> string \<Rightarrow> string \<Rightarrow> unicode \<Rightarrow> (py_error + bool) \<times> world" where
  "download_and_stream_to_s3 env w youtube_url post_id post_title =
     (case tmp_name env of
        None \<Rightarrow> (Inl OSError, w)
      | Some tmp_path \<Rightarrow>
          (case transfer_body env (w\<lparr>tmp_files := (tmp_files w)(tmp_path \<mapsto> 0)\<rparr>)
                  tmp_path youtube_url post_id post_title of
             (success, w') \<Rightarrow> (Inr success, cleanup env w' tmp_path)))"


section \<open>The ledger (load\_uploaded\_videos, save\_uploaded\_videos)\<close>

text \<open>
  No file gives the empty list; \<^verbatim>\<open>json.load\<close> raises on a text that is not JSON
  (\<^verbatim>\<open>JSONDecodeError\<close>, a \<^verbatim>\<open>ValueError\<close>).
\<close>

definition load_uploaded_videos :: "world \<Rightarrow> py_error + string list" where
  "load_uploaded_videos w =
     (case ledger_file w of
        None \<Rightarrow> Inr []
      | Some Cut_short \<Rightarrow> Inl ValueError
      | Some (Entries ids) \<Rightarrow> Inr ids)"

text \<open>
  What a write of the ledger does: it succeeds; \<^verbatim>\<open>open(..., 'w')\<close> raises and the file
  stays as it was; or \<^verbatim>\<open>open\<close> has truncated the file and \<^verbatim>\<open>json.dump\<close> or the
  closing of the file raises, which leaves a text that is not JSON.
\<close>

datatype save_outcome = Saved | Open_raises | Write_raises

text \<open>The file is rewritten whole: the exception, if any, and the world afterwards.\<close>

definition save_uploaded_videos ::
  "save_outcome \<Rightarrow> string list \<Rightarrow> world \<Rightarrow> py_error option \<times> world" where
  "save_uploaded_videos outcome uploaded_videos w =
     (case outcome of
        Saved \<Rightarrow> (None, w\<lparr>ledger_file := Some (Entries uploaded_videos)\<rparr>)
      | Open_raises \<Rightarrow> (Some OSError, w)
      | Write_raises \<Rightarrow> (Some OSError, w\<lparr>ledger_file := Some Cut_short\<rparr>))"

text \<open>What the outside does while one item is processed.\<close>

record item_env =
  transfer :: transfer_env
  saving :: save_outcome


section \<open>The command-line run (youtube\_to\_s3\_api.py, process\_posts)\<close>

text \<open>
  The state of the loop: \<^verbatim>\<open>self.uploaded_videos\<close>, \<^verbatim>\<open>successful_uploads\<close>,
  \<^verbatim>\<open>failed_uploads\<close> and the world.  The body of the loop for one post; an exception
  leaves \<^verbatim>\<open>process_posts\<close>.
\<close>

type_synonym cli_state = "string list \<times> nat \<times> nat \<times> world"

definition process_post :: "item_env \<Rightarrow> candidate \<Rightarrow> cli_state \<Rightarrow> py_error option \<times> cli_state" where
  "process_post env post st =
     (case st of (uploaded_videos, successful_uploads, failed_uploads, w) \<Rightarrow>
        (case download_and_stream_to_s3 (transfer env) w
                (cand_youtube_url post) (cand_id post) (cand_title post) of
           (Inl e, w') \<Rightarrow> (Some e, (uploaded_videos, successful_uploads, failed_uploads, w'))
         | (Inr success, w') \<Rightarrow>
             if success then
               (case save_uploaded_videos (saving env) (uploaded_videos @ [cand_id post]) w' of
                  (e, w'') \<Rightarrow>
                    (e, (uploaded_videos @ [cand_id post], successful_uploads + 1,
                         failed_uploads, w'')))
             else (None, (uploaded_videos, successful_uploads, failed_uploads + 1, w'))))"

fun process_loop ::
  "(nat \<Rightarrow> item_env) \<Rightarrow> nat \<Rightarrow> candidate list \<Rightarrow> cli_state \<Rightarrow> py_error option \<times> cli_state" where
  "process_loop items idx [] st = (None, st)"
| "process_loop items idx (post # rest) st =
     (case process_post (items idx) post st of
        (Some e, st') \<Rightarrow> (Some e, st')
      | (None, st') \<Rightarrow> process_loop items (idx + 1) rest st')"

definition process_posts ::
  "source_api \<Rightarrow> (nat \<Rightarrow> item_env) \<Rightarrow> int option \<Rightarrow> string list \<Rightarrow> world
    \<Rightarrow> (py_error option \<times> cli_state) option" where
  "process_posts api items max_posts uploaded_videos w =
     (case fetch_posts_from_api api uploaded_videos max_posts of
        None \<Rightarrow> None
      | Some (posts, requested) \<Rightarrow>
          if posts = [] then Some (None, (uploaded_videos, 0, 0, w))
          else Some (process_loop items 1 posts (uploaded_videos, 0, 0, w)))"


section \<open>The job coordinator (api\_server.py)\<close>

text \<open>The dictionary \<^verbatim>\<open>upload_status\<close>; \<open>current_post\<close> holds id, title and URL.\<close>

record job_status =
  is_running :: bool
  current_post_index :: nat
  total_posts :: nat
  successful_uploads :: nat
  failed_uploads :: nat
  current_post :: "(string \<times> unicode \<times> string) option"
  started_at :: "string option"
  completed_at :: "string option"

definition initial_status :: job_status where
  "initial_status =
     \<lparr>is_running = False, current_post_index = 0, total_posts = 0, successful_uploads = 0,
      failed_uploads = 0, current_post = None, started_at = None, completed_at = None\<rparr>"

text \<open>
  The server process and its surroundings: the status, the world, the background threads
  started so far (each with its \<^verbatim>\<open>max_posts\<close>), and \<open>history\<close>, the successive
  pairs of status and world that a reader in another thread could have met while a worker
  ran: one entry after each statement of the worker that writes to either.
\<close>

record system =
  status :: job_status
  world :: world
  threads :: "int option list"
  history :: "(job_status \<times> world) list"

definition commit :: "system \<Rightarrow> system" where
  "commit s = s\<lparr>history := history s @ [(status s, world s)]\<rparr>"

definition set_status :: "(job_status \<Rightarrow> job_status) \<Rightarrow> system \<Rightarrow> system" where
  "set_status f s = commit (s\<lparr>status := f (status s)\<rparr>)"

definition set_world :: "world \<Rightarrow> system \<Rightarrow> system" where
  "set_world w s = commit (s\<lparr>world := w\<rparr>)"

text \<open>
  The body of \<^verbatim>\<open>for idx, post in enumerate(posts, 1)\<close> in \<^verbatim>\<open>upload_worker\<close>, statement
  by statement; \<^verbatim>\<open>uploaded_videos\<close> is the list held by the worker's uploader object.
\<close>

definition worker_post ::
  "item_env \<Rightarrow> nat \<Rightarrow> candidate \<Rightarrow> string list \<Rightarrow> system
    \<Rightarrow> py_error option \<times> string list \<times> system" where
  "worker_post env idx post uploaded_videos s =
     (let s1 = set_status (\<lambda>st. st\<lparr>current_post_index := idx\<rparr>) s;
          s2 = set_status (\<lambda>st. st\<lparr>current_post :=
                  Some (cand_id post, cand_title post, cand_youtube_url post)\<rparr>) s1
      in case download_and_stream_to_s3 (transfer env) (world s2)
                (cand_youtube_url post) (cand_id post) (cand_title post) of
           (Inl e, w) \<Rightarrow> (Some e, uploaded_videos, set_world w s2)
         | (Inr success, w) \<Rightarrow>
             if success then
               (let s3 = set_status (\<lambda>st. st\<lparr>successful_uploads := successful_uploads st + 1\<rparr>)
                           (set_world w s2)
                in case save_uploaded_videos (saving env)
                          (uploaded_videos @ [cand_id post]) (world s3) of
                     (e, w') \<Rightarrow> (e, uploaded_videos @ [cand_id post], set_world w' s3))
             else
               (None, uploaded_videos,
                set_status (\<lambda>st. st\<lparr>failed_uploads := failed_uploads st + 1\<rparr>)
                  (set_world w s2)))"

fun worker_loop ::
  "(nat \<Rightarrow> item_env) \<Rightarrow> nat \<Rightarrow> candidate list \<Rightarrow> string list \<Rightarrow> system
    \<Rightarrow> py_error option \<times> string list \<times> system" where
  "worker_loop items idx [] uploaded_videos s = (None, uploaded_videos, s)"
| "worker_loop items idx (post # rest) uploaded_videos s =
     (case worker_post (items idx) idx post uploaded_videos s of
        (Some e, uploaded_videos', s') \<Rightarrow> (Some e, uploaded_videos', s')
      | (None, uploaded_videos', s') \<Rightarrow> worker_loop items (idx + 1) rest uploaded_videos' s')"

text \<open>
  What the outside does during one run of the worker: whether
  \<^verbatim>\<open>get_uploader_instance\<close> raises before it reads the ledger (\<^verbatim>\<open>S3_BUCKET_NAME\<close> not
  set gives \<^verbatim>\<open>ValueError\<close>), the source, the items, and the clock at the start and at
  the end.
\<close>

record run_env =
  uploader_error :: "py_error option"
  env_api :: source_api
  env_items :: "nat \<Rightarrow> item_env"
  env_started :: string
  env_finished :: string

text \<open>The \<^verbatim>\<open>finally\<close> block of the worker.\<close>

definition worker_finally :: "system \<Rightarrow> system" where
  "worker_finally s =
     set_status (\<lambda>st. st\<lparr>current_post := None\<rparr>)
       (set_status (\<lambda>st. st\<lparr>is_running := False\<rparr>) s)"

text \<open>
  \<^verbatim>\<open>upload_worker\<close>: the exception caught by \<^verbatim>\<open>except Exception\<close> (it is only
  printed) and the system afterwards; \<open>None\<close> when the enumeration never returns.
\<close>

definition upload_worker :: "run_env \<Rightarrow> int option \<Rightarrow> system \<Rightarrow> (py_error option \<times> system) option" where
  "upload_worker env max_posts s =
     (let s1 = set_status (\<lambda>st. st\<lparr>is_running := True\<rparr>) s;
          s2 = set_status (\<lambda>st. st\<lparr>started_at := Some (env_started env)\<rparr>) s1
      in case uploader_error env of
           Some e \<Rightarrow> Some (Some e, worker_finally s2)
         | None \<Rightarrow>
             (case load_uploaded_videos (world s2) of
                Inl e \<Rightarrow> Some (Some e, worker_finally s2)
              | Inr loaded \<Rightarrow>
                  (case fetch_posts_from_api (env_api env) loaded max_posts of
                     None \<Rightarrow> None
                   | Some (posts, requested) \<Rightarrow>
                       (case worker_loop (env_items env) 1 posts loaded
                               (set_status (\<lambda>st. st\<lparr>total_posts := length posts\<rparr>) s2) of
                          (Some e, uploaded_videos, s3) \<Rightarrow> Some (Some e, worker_finally s3)
                        | (None, uploaded_videos, s3) \<Rightarrow>
                            Some (None,
                              worker_finally
                                (set_status
                                   (\<lambda>st. st\<lparr>completed_at := Some (env_finished env)\<rparr>) s3))))))"

text \<open>
  The body of a start request: \<^verbatim>\<open>request.get_json()\<close> raises, or the body is read and
  gives \<^verbatim>\<open>max_posts\<close>.  The three responses are 409, 202 and 500.
\<close>

datatype request_body = Unreadable | Body "int option"

datatype start_response = Already_running | Started "int option" | Failed_to_start

definition start_upload :: "request_body \<Rightarrow> system \<Rightarrow> start_response \<times> system" where
  "start_upload body s =
     (if is_running (status s) then (Already_running, s)
      else
        (case body of
           Unreadable \<Rightarrow> (Failed_to_start, s\<lparr>status := initial_status\<rparr>)
         | Body max_posts \<Rightarrow>
             (Started max_posts,
              s\<lparr>status := initial_status, threads := threads s @ [max_posts]\<rparr>)))"


section \<open>Reconciliation (verify\_uploads.py)\<close>

text \<open>The loop \<^verbatim>\<open>for post_id in uploaded_post_ids\<close> with its two lists.\<close>

fun check_ids :: "string set \<Rightarrow> string list \<Rightarrow> string list \<Rightarrow> string list \<Rightarrow> string list \<times> string list" where
  "check_ids s3_video_ids [] missing_in_s3 verified_in_s3 = (missing_in_s3, verified_in_s3)"
| "check_ids s3_video_ids (post_id # rest) missing_in_s3 verified_in_s3 =
     (if post_id \<in> s3_video_ids
      then check_ids s3_video_ids rest missing_in_s3 (verified_in_s3 @ [post_id])
      else check_ids s3_video_ids rest (missing_in_s3 @ [post_id]) verified_in_s3)"

record report =
  missing_in_s3 :: "string list"
  verified_in_s3 :: "string list"
  extra_in_s3 :: "string set"

text \<open>
  \<^verbatim>\<open>verify_uploads\<close> from the comparison on, given the identifiers \<^verbatim>\<open>s3_video_ids\<close>
  found in the bucket.  \<open>choice\<close> is the answer typed at the prompt after
  \<^verbatim>\<open>.strip().lower()\<close> (\<open>None\<close>: \<^verbatim>\<open>input\<close> raises at end of input); the prompt only
  appears when something is missing.  No ledger file: the function returns at once; a
  ledger file that is not JSON: \<^verbatim>\<open>json.load\<close> raises and the function's handler ends it.
\<close>

definition verify_uploads ::
  "string set \<Rightarrow> string option \<Rightarrow> world \<Rightarrow> (py_error + report option) \<times> world" where
  "verify_uploads s3_video_ids choice w =
     (case ledger_file w of
        None \<Rightarrow> (Inr None, w)
      | Some Cut_short \<Rightarrow> (Inl ValueError, w)
      | Some (Entries uploaded_post_ids) \<Rightarrow>
          (case check_ids s3_video_ids uploaded_post_ids [] [] of
             (missing, verified) \<Rightarrow>
               if missing \<noteq> [] \<and> choice = None then (Inl EOFError, w)
               else
                 (Inr (Some \<lparr>missing_in_s3 = missing, verified_in_s3 = verified,
                             extra_in_s3 = s3_video_ids - set uploaded_post_ids\<rparr>),
                  if missing \<noteq> [] \<and> (choice = Some ''yes'' \<or> choice = Some ''y'')
                  then w\<lparr>backup_file := Some uploaded_post_ids,
                         ledger_file := Some (Entries verified)\<rparr>
                  else w)))"


section \<open>An observer of the status and the ledger\<close>


text \<open>
  An observer that reads the snapshots of a run in order.  It remembers the ledger and the
  count of successes that it has seen, and the identifier of a success that it has seen
  counted and not yet in the ledger.  It accepts a snapshot that shows what it saw before;
  one in which the counter has gone up by one while nothing is pending, and then it takes
  the identifier of the item from \<^verbatim>\<open>current_post\<close>; and one in which exactly the pending
  identifier has been appended to the ledger.  Every other snapshot it rejects.
\<close>

record watch =
  seen_ledger :: "string list"
  seen_count :: nat
  pending :: "string option"








section \<open>Concrete inputs\<close>

definition a_title :: unicode where
  "a_title = map of_char ''A title''"

text \<open>A server in the middle of a run: item 3 of 7 is being transferred.\<close>

definition running_system :: system where
  "running_system =
     \<lparr>status = \<lparr>is_running = True, current_post_index = 3, total_posts = 7,
                successful_uploads = 2, failed_uploads = 0,
                current_post =
                  Some (''41'', a_title, ''https://www.youtube.com/watch?v=1ArkKtDlGOc''),
                started_at = Some ''2025-01-01T10:00:00'', completed_at = None\<rparr>,
      world = \<lparr>ledger_file = Some (Entries [''7'', ''9'']), backup_file = None,
               tmp_files = Map.empty, s3_objects = []\<rparr>,
      threads = [None], history = []\<rparr>"

text \<open>A ledger that has drifted from the bucket: the ledger holds 1 and 2.\<close>

definition drift_world :: world where
  "drift_world = \<lparr>ledger_file = Some (Entries [''1'', ''2'']), backup_file = None,
                   tmp_files = Map.empty, s3_objects = []\<rparr>"


text \<open>Inputs for the transfer of one item.\<close>

definition empty_world :: world where
  "empty_world = \<lparr>ledger_file = None, backup_file = None, tmp_files = Map.empty, s3_objects = []\<rparr>"

definition good_transfer :: transfer_env where
  "good_transfer =
     \<lparr>tmp_name = Some ''/tmp/tmpk3v9.mp4'', download = Downloaded (Some 2048) (Ext ''mp4''),
      upload_raises = False, remove_raises = False, now = ''2025-01-01T10:00:05''\<rparr>"

definition zero_byte_transfer :: transfer_env where
  "zero_byte_transfer = good_transfer\<lparr>download := Downloaded (Some 0) (Ext ''mp4'')\<rparr>"

definition locked_transfer :: transfer_env where
  "locked_transfer = good_transfer\<lparr>remove_raises := True\<rparr>"

definition post41 :: candidate where
  "post41 = \<lparr>cand_id = ''41'', cand_title = a_title,
             cand_youtube_url = ''https://www.youtube.com/watch?v=1ArkKtDlGOc'', cand_date = ''2025-01-01''\<rparr>"


text \<open>Sources: two declared pages with a third one behind them; one page and then an
  empty one; a source whose first request times out.\<close>

definition video_post :: wp_post where
  "video_post = \<lparr>wp_id = ''41'', wp_title = a_title,
                 wp_content = ''youtu.be/1ArkKtDlGOc'', wp_date = ''2025-01-01''\<rparr>"

definition three_page_api :: source_api where
  "three_page_api =
     (\<lambda>n p. Reply \<lparr>status_code = 200,
                     json_body = Some [video_post\<lparr>wp_id :=
                        (if p = 1 then ''41'' else if p = 2 then ''42'' else ''43'')\<rparr>],
                     x_wp_totalpages = Number 2\<rparr>)"

definition short_api :: source_api where
  "short_api =
     (\<lambda>n p. Reply \<lparr>status_code = 200,
                     json_body = (if p = 1 then Some [video_post] else Some []),
                     x_wp_totalpages = Absent\<rparr>)"

definition flaky_api :: source_api where
  "flaky_api =
     (\<lambda>n p. if n = 0 then Timeout
            else Reply \<lparr>status_code = 200, json_body = Some [video_post],
                        x_wp_totalpages = Number 1\<rparr>)"

text \<open>
  The failures called transient: a timeout, a response with status 429 or 5xx, and a
  request exception (the form in which a 429 or 5xx reaches the counting script, whose
  session turns it into \<^verbatim>\<open>RetryError\<close>).
\<close>

definition transient :: "fetch_reply \<Rightarrow> bool" where
  "transient reply =
     (case reply of
        Timeout \<Rightarrow> True
      | Connection_error \<Rightarrow> True
      | Reply r \<Rightarrow> status_code r = 429 \<or> (500 \<le> status_code r \<and> status_code r < 600))"

text \<open>
  A source that never answers, and one that times out four times on page 1, answers it,
  times out once on page 2 and answers that too.
\<close>

definition dead_api :: source_api where
  "dead_api = (\<lambda>n p. Timeout)"

definition bumpy_api :: source_api where
  "bumpy_api =
     (\<lambda>n p. if n < 4 \<or> n = 5 then Timeout
            else Reply \<lparr>status_code = 200, json_body = Some [video_post],
                        x_wp_totalpages = Number 2\<rparr>)"

text \<open>
  Runs of the worker: a server that has just accepted a start request; a run in which
  everything succeeds on a source with one post; the same run with a ledger file whose
  writing fails after the file has been opened.
\<close>

definition idle_system :: system where
  "idle_system =
     \<lparr>status = initial_status,
      world = \<lparr>ledger_file = None, backup_file = None, tmp_files = Map.empty, s3_objects = []\<rparr>,
      threads = [None], history = []\<rparr>"

definition good_run :: run_env where
  "good_run =
     \<lparr>uploader_error = None, env_api = short_api,
      env_items = (\<lambda>idx. \<lparr>transfer = good_transfer, saving = Saved\<rparr>),
      env_started = ''2025-01-01T10:00:00'', env_finished = ''2025-01-01T10:01:00''\<rparr>"

definition disk_full_run :: run_env where
  "disk_full_run =
     good_run\<lparr>env_items := (\<lambda>idx. \<lparr>transfer = good_transfer, saving = Write_raises\<rparr>)\<rparr>"

text \<open>What a run leaves for a reader: the snapshots, and the exception with the final status.\<close>

definition run_history :: "run_env \<Rightarrow> int option \<Rightarrow> system \<Rightarrow> (job_status \<times> world) list" where
  "run_history env max_posts s =
     (case upload_worker env max_posts s of None \<Rightarrow> [] | Some (e, s') \<Rightarrow> history s')"


text \<open>A server whose ledger file already has two entries.\<close>

definition resumed_system :: system where
  "resumed_system = idle_system\<lparr>world := drift_world\<rparr>"


section \<open>Properties of the extractor\<close>

lemma match_here_shape:
  "match_here lit s = Some tok \<Longrightarrow> length tok = 11 \<and> list_all is_id_char tok"
  by (auto simp: match_here_def Let_def split: if_splits)

lemma first_alt_shape:
  "first_alt alts s = Some tok \<Longrightarrow> length tok = 11 \<and> list_all is_id_char tok"
  by (induction alts) (auto split: option.splits dest: match_here_shape)

lemma re_search_shape:
  "re_search alts s = Some tok \<Longrightarrow> length tok = 11 \<and> list_all is_id_char tok"
  by (induction s) (auto split: option.splits dest: first_alt_shape)





lemma blacklist_lengths: "tok \<in> set blacklist \<Longrightarrow> length tok \<noteq> 11"
  by (auto simp: blacklist_def)



text \<open>
  Claim C10.  A token captured by the catch-all pattern 5 has exactly 11 characters, all
  of them from \<^verbatim>\<open>[a-zA-Z0-9_-]\<close>; no literal of the blacklist has length 11, so the
  token is never in the blacklist; and on every text the extractor returns what it
  returns with the validation left out.
\<close>

theorem blacklist_check_is_dead:
  "(re_search video_id_pattern s = Some tok \<longrightarrow>
      length tok = 11 \<and> list_all is_id_char tok \<and> tok \<notin> set blacklist) \<and>
   list_all (\<lambda>b. length b \<noteq> 11) blacklist \<and>
   extract_youtube_url s = extract_without_blacklist s"
proof (intro conjI impI)
  assume "re_search video_id_pattern s = Some tok"
  then show "length tok = 11" and "list_all is_id_char tok" and "tok \<notin> set blacklist"
    using re_search_shape blacklist_lengths by blast+
next
  show "list_all (\<lambda>b. length b \<noteq> 11) blacklist"
    by (simp add: blacklist_def)
next
  show "extract_youtube_url s = extract_without_blacklist s"
    by (auto simp: extract_youtube_url_def extract_without_blacklist_def
        split: option.splits dest: re_search_shape blacklist_lengths)
qed

theorem blacklist_check_is_dead_witness:
  "re_search video_id_pattern ''see youtube.com/channelABCD'' = Some ''channelABCD'' \<and>
   length ''channelABCD'' = 11 \<and> list_all is_id_char ''channelABCD'' \<and>
   ''channelABCD'' \<notin> set blacklist \<and>
   extract_youtube_url ''see youtube.com/channelABCD'' =
     extract_without_blacklist ''see youtube.com/channelABCD''"
proof -
  have h: "re_search video_id_pattern ''see youtube.com/channelABCD'' = Some ''channelABCD''"
    by code_simp
  note t = blacklist_check_is_dead [of "''see youtube.com/channelABCD''" "''channelABCD''"]
  from t h have "length ''channelABCD'' = 11 \<and> list_all is_id_char ''channelABCD'' \<and>
      ''channelABCD'' \<notin> set blacklist"
    by (elim conjE impE) auto
  moreover from t have "extract_youtube_url ''see youtube.com/channelABCD'' =
     extract_without_blacklist ''see youtube.com/channelABCD''"
    by (elim conjE)
  ultimately show ?thesis using h by blast
qed

section \<open>Properties of the job coordinator\<close>

text \<open>
  Claim C1.  A start request that finds \<open>is_running\<close> true is answered with the
  conflict response (409), and the whole system, the status with every field of it, is
  left as it was.
\<close>

theorem start_while_running:
  "is_running (status s) \<Longrightarrow> start_upload body s = (Already_running, s)"
  by (simp add: start_upload_def)

theorem start_while_running_witness:
  "is_running (status running_system) \<and>
   start_upload (Body (Some 5)) running_system = (Already_running, running_system) \<and>
   successful_uploads (status (snd (start_upload (Body (Some 5)) running_system))) = 2"
proof -
  have r: "is_running (status running_system)"
    by (simp add: running_system_def)
  have e: "start_upload (Body (Some 5)) running_system = (Already_running, running_system)"
    by (rule start_while_running [OF r])
  have "successful_uploads (status (snd (start_upload (Body (Some 5)) running_system))) = 2"
    unfolding e by (simp add: running_system_def)
  with r e show ?thesis by blast
qed


section \<open>Properties of the reconciliation\<close>

lemma check_ids_filter:
  "check_ids S ids missing verified =
     (missing @ filter (\<lambda>p. p \<notin> S) ids, verified @ filter (\<lambda>p. p \<in> S) ids)"
  by (induction ids arbitrary: missing verified) auto

text \<open>
  Claim C7.  For a ledger \<open>L\<close> and the identifiers \<open>S\<close> found in the bucket, once the
  prompt (if any) is answered the report has \<open>missing = L - S\<close> and
  \<open>extra = S - L\<close>, and an answer other than \<^verbatim>\<open>yes\<close> or \<^verbatim>\<open>y\<close> leaves the world as it
  was; whatever happens at the prompt, the ledger file changes only on the answer
  \<^verbatim>\<open>yes\<close> or \<^verbatim>\<open>y\<close>.
\<close>

theorem reconcile_diff:
  assumes "ledger_file w = Some (Entries L)"
  shows "(\<exists>r w'. verify_uploads S (Some answer) w = (Inr (Some r), w') \<and>
            set (missing_in_s3 r) = set L - S \<and>
            extra_in_s3 r = S - set L \<and>
            (answer \<noteq> ''yes'' \<and> answer \<noteq> ''y'' \<longrightarrow> w' = w)) \<and>
         (ledger_file (snd (verify_uploads S choice w)) \<noteq> ledger_file w \<longrightarrow>
            choice = Some ''yes'' \<or> choice = Some ''y'')"
  using assms by (auto simp: verify_uploads_def check_ids_filter)

text \<open>The ledger 1, 2 against the bucket 2, 3, with the answer \<^verbatim>\<open>no\<close>.\<close>

theorem reconcile_diff_witness:
  "ledger_file drift_world = Some (Entries [''1'', ''2'']) \<and>
   verify_uploads (set [''2'', ''3'']) (Some ''no'') drift_world =
     (Inr (Some \<lparr>missing_in_s3 = [''1''], verified_in_s3 = [''2''], extra_in_s3 = {''3''}\<rparr>),
      drift_world) \<and>
   set [''1''] = set [''1'', ''2''] - set [''2'', ''3''] \<and>
   {''3''} = set [''2'', ''3''] - set [''1'', ''2'']"
proof -
  have l: "ledger_file drift_world = Some (Entries [''1'', ''2''])"
    by (simp add: drift_world_def)
  have e: "verify_uploads (set [''2'', ''3'']) (Some ''no'') drift_world =
     (Inr (Some \<lparr>missing_in_s3 = [''1''], verified_in_s3 = [''2''], extra_in_s3 = {''3''}\<rparr>),
      drift_world)"
    by (auto simp: verify_uploads_def drift_world_def)
  from reconcile_diff [OF l, of "set [''2'', ''3'']" "''no''" "Some ''no''"]
  obtain r w' where
    v: "verify_uploads (set [''2'', ''3'']) (Some ''no'') drift_world = (Inr (Some r), w')"
    and m: "set (missing_in_s3 r) = set [''1'', ''2''] - set [''2'', ''3'']"
    and x: "extra_in_s3 r = set [''2'', ''3''] - set [''1'', ''2'']"
    by blast
  from v e have r: "r = \<lparr>missing_in_s3 = [''1''], verified_in_s3 = [''2''], extra_in_s3 = {''3''}\<rparr>"
    by simp
  from m r have m': "set [''1''] = set [''1'', ''2''] - set [''2'', ''3'']"
    by simp
  from x r have x': "{''3''} = set [''2'', ''3''] - set [''1'', ''2'']"
    by simp
  from l e m' x' show ?thesis by blast
qed

section \<open>Properties of the transfer\<close>

lemma zero_byte_transfer_fails:
  assumes "tmp_name env = Some tmp_path" and "download env = Downloaded (Some 0) ext"
  shows "\<exists>w'. download_and_stream_to_s3 env w youtube_url post_id post_title = (Inr False, w') \<and>
           s3_objects w' = s3_objects w \<and> ledger_file w' = ledger_file w"
  using assms
  by (simp add: download_and_stream_to_s3_def transfer_body_def cleanup_def)

text \<open>
  Claim C5.  When the download leaves a temporary file of zero bytes, the transfer returns
  \<open>False\<close> without uploading anything (the bucket is as before) and without touching
  the ledger file; the loop body of \<^verbatim>\<open>process_posts\<close> then appends no identifier, does
  not rewrite the ledger file and counts a failure, and so does the loop body of
  \<^verbatim>\<open>upload_worker\<close>.
\<close>

theorem zero_byte_download_fails:
  assumes "tmp_name (transfer env) = Some tmp_path"
    and "download (transfer env) = Downloaded (Some 0) ext"
  shows "(\<exists>w'. download_and_stream_to_s3 (transfer env) w youtube_url post_id post_title =
              (Inr False, w') \<and>
            s3_objects w' = s3_objects w \<and> ledger_file w' = ledger_file w) \<and>
         (\<exists>w'. process_post env post (uploaded_videos, successful, failed, w) =
              (None, (uploaded_videos, successful, failed + 1, w')) \<and>
            s3_objects w' = s3_objects w \<and> ledger_file w' = ledger_file w) \<and>
         (\<exists>s'. worker_post env idx post uploaded_videos s = (None, uploaded_videos, s') \<and>
            s3_objects (world s') = s3_objects (world s) \<and>
            ledger_file (world s') = ledger_file (world s) \<and>
            successful_uploads (status s') = successful_uploads (status s) \<and>
            failed_uploads (status s') = failed_uploads (status s) + 1)"
proof (intro conjI)
  show "\<exists>w'. download_and_stream_to_s3 (transfer env) w youtube_url post_id post_title =
              (Inr False, w') \<and>
            s3_objects w' = s3_objects w \<and> ledger_file w' = ledger_file w"
    by (rule zero_byte_transfer_fails [OF assms])
next
  from zero_byte_transfer_fails [OF assms] obtain w' where
    "download_and_stream_to_s3 (transfer env) w (cand_youtube_url post) (cand_id post) (cand_title post)
       = (Inr False, w')" "s3_objects w' = s3_objects w" "ledger_file w' = ledger_file w"
    by blast
  then show "\<exists>w'. process_post env post (uploaded_videos, successful, failed, w) =
              (None, (uploaded_videos, successful, failed + 1, w')) \<and>
            s3_objects w' = s3_objects w \<and> ledger_file w' = ledger_file w"
    by (simp add: process_post_def)
next
  let ?s2 = "set_status (\<lambda>st. st\<lparr>current_post :=
                  Some (cand_id post, cand_title post, cand_youtube_url post)\<rparr>)
               (set_status (\<lambda>st. st\<lparr>current_post_index := idx\<rparr>) s)"
  have w2: "world ?s2 = world s"
    by (simp add: set_status_def commit_def)
  have st2: "successful_uploads (status ?s2) = successful_uploads (status s)"
      "failed_uploads (status ?s2) = failed_uploads (status s)"
    by (simp_all add: set_status_def commit_def)
  from zero_byte_transfer_fails [OF assms] obtain w' where
    d: "download_and_stream_to_s3 (transfer env) (world ?s2) (cand_youtube_url post) (cand_id post)
         (cand_title post) = (Inr False, w')"
    and k: "s3_objects w' = s3_objects (world ?s2)" "ledger_file w' = ledger_file (world ?s2)"
    by blast
  have "worker_post env idx post uploaded_videos s =
      (None, uploaded_videos,
       set_status (\<lambda>st. st\<lparr>failed_uploads := failed_uploads st + 1\<rparr>) (set_world w' ?s2))"
    using d by (simp add: worker_post_def Let_def)
  moreover have "s3_objects (world (set_status (\<lambda>st. st\<lparr>failed_uploads := failed_uploads st + 1\<rparr>)
      (set_world w' ?s2))) = s3_objects (world s)"
    using k w2 by (simp add: set_status_def set_world_def commit_def)
  moreover have "ledger_file (world (set_status (\<lambda>st. st\<lparr>failed_uploads := failed_uploads st + 1\<rparr>)
      (set_world w' ?s2))) = ledger_file (world s)"
    using k w2 by (simp add: set_status_def set_world_def commit_def)
  moreover have "successful_uploads (status (set_status
      (\<lambda>st. st\<lparr>failed_uploads := failed_uploads st + 1\<rparr>) (set_world w' ?s2))) =
      successful_uploads (status s)"
    using st2 by (simp add: set_status_def set_world_def commit_def)
  moreover have "failed_uploads (status (set_status
      (\<lambda>st. st\<lparr>failed_uploads := failed_uploads st + 1\<rparr>) (set_world w' ?s2))) =
      failed_uploads (status s) + 1"
    using st2 by (simp add: set_status_def set_world_def commit_def)
  ultimately show "\<exists>s'. worker_post env idx post uploaded_videos s = (None, uploaded_videos, s') \<and>
            s3_objects (world s') = s3_objects (world s) \<and>
            ledger_file (world s') = ledger_file (world s) \<and>
            successful_uploads (status s') = successful_uploads (status s) \<and>
            failed_uploads (status s') = failed_uploads (status s) + 1"
    by blast
qed

theorem zero_byte_download_fails_witness:
  "tmp_name zero_byte_transfer = Some ''/tmp/tmpk3v9.mp4'' \<and>
   download zero_byte_transfer = Downloaded (Some 0) (Ext ''mp4'') \<and>
   fst (download_and_stream_to_s3 zero_byte_transfer drift_world
         ''https://www.youtube.com/watch?v=1ArkKtDlGOc'' ''41'' a_title) = Inr False \<and>
   fst (process_post \<lparr>transfer = zero_byte_transfer, saving = Saved\<rparr> post41
         ([''1'', ''2''], 0, 0, drift_world)) = None \<and>
   fst (snd (process_post \<lparr>transfer = zero_byte_transfer, saving = Saved\<rparr> post41
         ([''1'', ''2''], 0, 0, drift_world))) = [''1'', ''2''] \<and>
   ledger_file (snd (snd (snd (snd (process_post \<lparr>transfer = zero_byte_transfer, saving = Saved\<rparr>
         post41 ([''1'', ''2''], 0, 0, drift_world)))))) = Some (Entries [''1'', ''2''])"
proof -
  let ?env = "\<lparr>transfer = zero_byte_transfer, saving = Saved\<rparr>"
  have n: "tmp_name (transfer ?env) = Some ''/tmp/tmpk3v9.mp4''"
    by (simp add: zero_byte_transfer_def good_transfer_def)
  have d: "download (transfer ?env) = Downloaded (Some 0) (Ext ''mp4'')"
    by (simp add: zero_byte_transfer_def good_transfer_def)
  note t = zero_byte_download_fails [OF n d, of drift_world
      "''https://www.youtube.com/watch?v=1ArkKtDlGOc''" "''41''" a_title
      post41 "[''1'', ''2'']" 0 0 1 running_system]
  from t have a: "fst (download_and_stream_to_s3 zero_byte_transfer drift_world
         ''https://www.youtube.com/watch?v=1ArkKtDlGOc'' ''41'' a_title) = Inr False"
    by auto
  from t obtain w' where
    p: "process_post ?env post41 ([''1'', ''2''], 0, 0, drift_world) =
          (None, ([''1'', ''2''], 0, 0 + 1, w'))"
    and l: "ledger_file w' = ledger_file drift_world"
    by blast
  have l': "ledger_file drift_world = Some (Entries [''1'', ''2''])"
    by (simp add: drift_world_def)
  from n d a p l l' show ?thesis by simp
qed

text \<open>
  Claim C6, as stated, fails: the \<^verbatim>\<open>finally\<close> block catches a failure of
  \<^verbatim>\<open>os.remove\<close> and only prints a warning.  Here the upload succeeds, the removal
  raises, and the temporary file of 2048 bytes is still there when the function returns.
\<close>

theorem temp_file_left_behind:
  "fst (download_and_stream_to_s3 locked_transfer empty_world
         ''https://www.youtube.com/watch?v=1ArkKtDlGOc'' ''41'' a_title) = Inr True \<and>
   tmp_files (snd (download_and_stream_to_s3 locked_transfer empty_world
         ''https://www.youtube.com/watch?v=1ArkKtDlGOc'' ''41'' a_title))
     ''/tmp/tmpk3v9.mp4'' = Some 2048"
  by (simp add: download_and_stream_to_s3_def transfer_body_def cleanup_def
      locked_transfer_def good_transfer_def empty_world_def)

text \<open>
  Claim C6, amended.  Once the temporary file has been created, every path through the
  transfer (whatever the download leaves and whether or not the upload raises) returns
  its boolean result, and whenever \<^verbatim>\<open>os.remove\<close> does not raise the temporary file
  is gone when the function returns.
\<close>

theorem temp_file_removed_unless_remove_fails:
  assumes "tmp_name env = Some tmp_path"
  shows "(\<exists>success. fst (download_and_stream_to_s3 env w youtube_url post_id post_title) = Inr success) \<and>
         (\<not> remove_raises env \<longrightarrow>
            tmp_files (snd (download_and_stream_to_s3 env w youtube_url post_id post_title)) tmp_path = None)"
  using assms
  by (auto simp: download_and_stream_to_s3_def transfer_body_def cleanup_def Let_def
      split: download.splits option.splits prod.splits if_splits)

theorem temp_file_removed_unless_remove_fails_witness:
  "tmp_name good_transfer = Some ''/tmp/tmpk3v9.mp4'' \<and>
   \<not> remove_raises good_transfer \<and>
   fst (download_and_stream_to_s3 good_transfer empty_world
         ''https://www.youtube.com/watch?v=1ArkKtDlGOc'' ''41'' a_title) = Inr True \<and>
   tmp_files (snd (download_and_stream_to_s3 good_transfer empty_world
         ''https://www.youtube.com/watch?v=1ArkKtDlGOc'' ''41'' a_title))
     ''/tmp/tmpk3v9.mp4'' = None"
proof -
  have n: "tmp_name good_transfer = Some ''/tmp/tmpk3v9.mp4''"
    by (simp add: good_transfer_def)
  have r: "\<not> remove_raises good_transfer"
    by (simp add: good_transfer_def)
  have t: "fst (download_and_stream_to_s3 good_transfer empty_world
         ''https://www.youtube.com/watch?v=1ArkKtDlGOc'' ''41'' a_title) = Inr True"
    by (simp add: download_and_stream_to_s3_def transfer_body_def cleanup_def
        good_transfer_def empty_world_def)
  from temp_file_removed_unless_remove_fails [OF n] r
  have "tmp_files (snd (download_and_stream_to_s3 good_transfer empty_world
         ''https://www.youtube.com/watch?v=1ArkKtDlGOc'' ''41'' a_title))
     ''/tmp/tmpk3v9.mp4'' = None"
    by blast
  with n r t show ?thesis by blast
qed

section \<open>Properties of the enumeration\<close>

text \<open>
  When every response declares \<open>N\<close> total pages the loop returns, and after the page it
  is at it asks, in order, only for pages up to \<open>N\<close>.
\<close>

lemma fetch_loop_bounded:
  assumes hdr: "\<And>n p r. api n p = Reply r \<Longrightarrow> x_wp_totalpages r = Number N"
  shows "\<exists>posts' new. fetch_loop api up mp page posts requested = Some (posts', requested @ page # new) \<and>
           (\<forall>p \<in> set new. int p \<le> N) \<and> (\<forall>i < length new. new ! i = Suc page + i)"
proof (induction "nat (N - int page)" arbitrary: page posts requested rule: less_induct)
  case less
  define res where "res = fetch_loop api up mp page posts requested"
  have res_eq: "res =
     (case api (length requested) page of
        Timeout \<Rightarrow> Some (posts, requested @ [page])
      | Connection_error \<Rightarrow> Some (posts, requested @ [page])
      | Reply response \<Rightarrow>
          if status_code response \<noteq> 200 then Some (posts, requested @ [page])
          else
            (case json_body response of
               None \<Rightarrow> Some (posts, requested @ [page])
             | Some page_posts \<Rightarrow>
                 if page_posts = [] then Some (posts, requested @ [page])
                 else if max_reached mp (scan_page up mp page_posts posts)
                 then Some (scan_page up mp page_posts posts, requested @ [page])
                 else
                   (case x_wp_totalpages response of
                      Number total_pages \<Rightarrow>
                        if total_pages \<le> int page
                        then Some (scan_page up mp page_posts posts, requested @ [page])
                        else fetch_loop api up mp (page + 1)
                               (scan_page up mp page_posts posts) (requested @ [page])
                    | Not_a_number \<Rightarrow> Some (scan_page up mp page_posts posts, requested @ [page])
                    | Absent \<Rightarrow>
                        fetch_loop api up mp (page + 1)
                          (scan_page up mp page_posts posts) (requested @ [page])
                    | Empty_text \<Rightarrow>
                        fetch_loop api up mp (page + 1)
                          (scan_page up mp page_posts posts) (requested @ [page]))))"
    unfolding res_def by (rule fetch_loop.simps)
  have step: "(\<exists>posts'. res = Some (posts', requested @ [page])) \<or>
      (\<not> N \<le> int page \<and>
       (\<exists>posts'. res = fetch_loop api up mp (page + 1) posts' (requested @ [page])))"
    unfolding res_eq using hdr
    by (auto split: fetch_reply.splits option.splits total_pages_header.splits)
  then show ?case
  proof
    assume "\<exists>posts'. res = Some (posts', requested @ [page])"
    then show ?thesis unfolding res_def by auto
  next
    assume go: "\<not> N \<le> int page \<and>
       (\<exists>posts'. res = fetch_loop api up mp (page + 1) posts' (requested @ [page]))"
    then obtain posts1 where
      r: "res = fetch_loop api up mp (page + 1) posts1 (requested @ [page])" and lt: "int page < N"
      by auto
    from lt have "nat (N - int (page + 1)) < nat (N - int page)" by simp
    from less [OF this, of posts1 "requested @ [page]"] obtain posts' new where
      f: "fetch_loop api up mp (page + 1) posts1 (requested @ [page]) =
            Some (posts', (requested @ [page]) @ (page + 1) # new)"
      and b: "\<forall>p \<in> set new. int p \<le> N"
      and i: "\<forall>i < length new. new ! i = Suc (page + 1) + i"
      by blast
    have "res = Some (posts', requested @ page # ((page + 1) # new))"
      using r f by simp
    moreover have "\<forall>p \<in> set ((page + 1) # new). int p \<le> N"
      using b lt by simp
    moreover have "\<forall>i < length ((page + 1) # new). ((page + 1) # new) ! i = Suc page + i"
      using i by (auto simp: nth_Cons split: nat.splits)
    ultimately show ?thesis unfolding res_def by blast
  qed
qed

lemma fetch_loop_empty_page:
  assumes "api (length requested) page = Reply r" "status_code r = 200" "json_body r = Some []"
  shows "fetch_loop api up mp page posts requested = Some (posts, requested @ [page])"
  using assms by (subst fetch_loop.simps) simp

text \<open>
  Claim C8.  When the responses carry \<^verbatim>\<open>X-WP-TotalPages = N\<close> the enumeration returns;
  it asks for the pages 1, 2, 3, ... in order and for none beyond \<open>N\<close> (page 1, which is
  asked for before any header has been seen, apart).  An empty page body ends the
  enumeration at that page.
\<close>

theorem enumeration_stops_at_total_pages:
  "((\<forall>n p r. api n p = Reply r \<longrightarrow> x_wp_totalpages r = Number N) \<longrightarrow>
      (\<exists>posts requested. fetch_posts_from_api api uploaded_videos max_posts = Some (posts, requested) \<and>
         (\<forall>i < length requested. requested ! i = Suc i) \<and>
         (\<forall>p \<in> set requested. p = 1 \<or> int p \<le> N))) \<and>
   (api (length requested) page = Reply r \<and> status_code r = 200 \<and> json_body r = Some [] \<longrightarrow>
      fetch_loop api uploaded_videos max_posts page posts requested = Some (posts, requested @ [page]))"
proof (intro conjI impI)
  assume "\<forall>n p r. api n p = Reply r \<longrightarrow> x_wp_totalpages r = Number N"
  then have h: "\<And>n p r. api n p = Reply r \<Longrightarrow> x_wp_totalpages r = Number N" by blast
  have "\<exists>posts' new. fetch_loop api uploaded_videos max_posts 1 [] [] = Some (posts', [] @ 1 # new) \<and>
           (\<forall>p \<in> set new. int p \<le> N) \<and> (\<forall>i < length new. new ! i = Suc 1 + i)"
    by (rule fetch_loop_bounded) (rule h)
  then obtain posts' new where
    f: "fetch_loop api uploaded_videos max_posts 1 [] [] = Some (posts', [] @ 1 # new)"
    and b: "\<forall>p \<in> set new. int p \<le> N"
    and i: "\<forall>i < length new. new ! i = Suc 1 + i"
    by blast
  have "fetch_posts_from_api api uploaded_videos max_posts = Some (posts', 1 # new)"
    using f by (simp add: fetch_posts_from_api_def)
  moreover have "\<forall>i < length (1 # new). (1 # new) ! i = Suc i"
    using i by (auto simp: nth_Cons split: nat.splits)
  moreover have "\<forall>p \<in> set (1 # new). p = 1 \<or> int p \<le> N"
    using b by simp
  ultimately show "\<exists>posts requested.
      fetch_posts_from_api api uploaded_videos max_posts = Some (posts, requested) \<and>
      (\<forall>i < length requested. requested ! i = Suc i) \<and> (\<forall>p \<in> set requested. p = 1 \<or> int p \<le> N)"
    by blast
next
  assume "api (length requested) page = Reply r \<and> status_code r = 200 \<and> json_body r = Some []"
  then show "fetch_loop api uploaded_videos max_posts page posts requested =
      Some (posts, requested @ [page])"
    by (intro fetch_loop_empty_page) auto
qed

text \<open>
  Two declared pages and a third, non-empty page behind them: pages 1 and 2 are asked
  for and no other.  A source that answers page 2 with an empty body stops there.
\<close>

theorem enumeration_stops_at_total_pages_witness:
  "(\<forall>n p. \<exists>r posts. three_page_api n p = Reply r \<and> x_wp_totalpages r = Number 2 \<and>
       status_code r = 200 \<and> json_body r = Some posts \<and> posts \<noteq> []) \<and>
   fetch_posts_from_api three_page_api [] None =
     Some ([post41, post41\<lparr>cand_id := ''42''\<rparr>], [1, 2]) \<and>
   fetch_loop short_api [] None 2 [post41] [1] = Some ([post41], [1, 2])"
proof -
  have a: "\<forall>n p. \<exists>r posts. three_page_api n p = Reply r \<and> x_wp_totalpages r = Number 2 \<and>
       status_code r = 200 \<and> json_body r = Some posts \<and> posts \<noteq> []"
    by (simp add: three_page_api_def)
  have h: "\<forall>n p r. three_page_api n p = Reply r \<longrightarrow> x_wp_totalpages r = Number 2"
    by (auto simp: three_page_api_def)
  have e: "fetch_posts_from_api three_page_api [] None =
     Some ([post41, post41\<lparr>cand_id := ''42''\<rparr>], [1, 2])"
    by code_simp
  have s: "short_api (length [1::nat]) 2 =
      Reply \<lparr>status_code = 200, json_body = Some [], x_wp_totalpages = Absent\<rparr> \<and>
    status_code \<lparr>status_code = 200, json_body = Some [], x_wp_totalpages = Absent\<rparr> = 200 \<and>
    json_body \<lparr>status_code = 200, json_body = Some [], x_wp_totalpages = Absent\<rparr> = Some []"
    by (simp add: short_api_def)
  from enumeration_stops_at_total_pages [where api = three_page_api and N = 2
      and uploaded_videos = "[]" and max_posts = None] h
  obtain posts requested where
    "fetch_posts_from_api three_page_api [] None = Some (posts, requested)"
    "\<forall>p \<in> set requested. p = 1 \<or> int p \<le> 2"
    by blast
  from enumeration_stops_at_total_pages [where api = short_api and uploaded_videos = "[]"
      and max_posts = None and requested = "[1]" and page = 2 and posts = "[post41]"
      and r = "\<lparr>status_code = 200, json_body = Some [], x_wp_totalpages = Absent\<rparr>"] s
  have "fetch_loop short_api [] None 2 [post41] [1] = Some ([post41], [1] @ [2])"
    by blast
  with a e show ?thesis by simp
qed

section \<open>Properties of the counting script's page loop\<close>

lemma requested_pages_append:
  "requested_pages (xs @ ys) = requested_pages xs @ requested_pages ys"
  by (simp add: requested_pages_def)

lemma requested_pages_get: "requested_pages [Get p] = [p]"
  by (simp add: requested_pages_def)

lemma requested_pages_get_sleep: "requested_pages [Get p, Sleep d] = [p]"
  by (simp add: requested_pages_def)

lemma transient_fails: "transient reply \<Longrightarrow> fails json_error_retried reply"
  by (auto simp: transient_def fails_def split: fetch_reply.splits)

lemma count_loop_fail:
  assumes "fails json_error_retried (api n page)" and "int page \<le> total_pages"
  shows "count_loop api json_error_retried total_pages n page consecutive_errors video_count events =
         (if max_consecutive_errors \<le> consecutive_errors + 1
          then (Too_many_errors, page, video_count, events @ [Get page])
          else count_loop api json_error_retried total_pages (n + 1) page (consecutive_errors + 1)
                 video_count (events @ [Get page, Sleep (retry_delay (api n page))]))"
  using assms
  by (subst count_loop.simps)
     (auto simp: fails_def retry_delay_def split: fetch_reply.splits option.splits)

lemma count_loop_good:
  assumes "api n page = Reply r" and "status_code r = 200" and "json_body r = Some posts"
    and "posts \<noteq> []" and "int page \<le> total_pages"
  shows "count_loop api json_error_retried total_pages n page consecutive_errors video_count events =
         count_loop api json_error_retried total_pages (n + 1) (page + 1) 0
           (video_count + length (filter (\<lambda>post. count_extract_youtube_url (wp_content post)) posts))
           (events @ [Get page, Sleep 1])"
  using assms
  by (subst count_loop.simps) simp

lemma count_loop_no_fail:
  assumes "\<not> fails json_error_retried (api n page)" and "int page \<le> total_pages"
    and "count_loop api json_error_retried total_pages n page consecutive_errors video_count events =
         (Too_many_errors, p, vc, ev)"
  shows "\<exists>r posts. api n page = Reply r \<and> status_code r = 200 \<and> json_body r = Some posts \<and>
           posts \<noteq> []"
proof -
  note s = count_loop.simps [of api json_error_retried total_pages n page consecutive_errors
      video_count events]
  from assms(3) [unfolded s] assms(1,2) show ?thesis
    by (auto simp: fails_def split: fetch_reply.splits option.splits if_splits)
qed

lemma counted_fail:
  assumes "counted api jr n page ce events" and "fails jr (api n page)"
  shows "counted api jr (n + 1) page (ce + 1) (events @ [Get page, Sleep d])"
proof -
  from assms have l: "length (requested_pages events) = n" and c: "ce \<le> n"
    and a: "\<forall>k < ce. requested_pages events ! (n - 1 - k) = page \<and> fails jr (api (n - 1 - k) page)"
    by (auto simp: counted_def)
  have "requested_pages (events @ [Get page, Sleep d]) ! (n - k) = page \<and>
        fails jr (api (n - k) page)" if "k < ce + 1" for k
  proof (cases k)
    case 0
    with l assms(2) show ?thesis
      by (simp add: requested_pages_append requested_pages_get_sleep nth_append)
  next
    case (Suc j)
    with that have j: "j < ce" by simp
    with c have "n - Suc j < n" by simp
    with l a j Suc show ?thesis
      by (simp add: requested_pages_append requested_pages_get_sleep nth_append)
  qed
  with l c show ?thesis
    by (simp add: counted_def requested_pages_append requested_pages_get_sleep)
qed

lemma counted_good: 
  assumes "counted api jr n page ce events"
  shows "counted api jr (n + 1) (page + 1) 0 (events @ [Get page, Sleep d])"
  using assms by (simp add: counted_def requested_pages_append requested_pages_get_sleep)

lemma counted_stop:
  assumes "counted api jr n page ce events" and "fails jr (api n page)"
    and "max_consecutive_errors \<le> ce + 1"
  shows "max_consecutive_errors \<le> length (requested_pages (events @ [Get page])) \<and>
         (\<forall>k < max_consecutive_errors.
            requested_pages (events @ [Get page]) !
              (length (requested_pages (events @ [Get page])) - 1 - k) = page \<and>
            fails jr (api (length (requested_pages (events @ [Get page])) - 1 - k) page))"
proof -
  from counted_fail [where api = api and n = n and page = page and d = 0, OF assms(1,2)]
  have c: "counted api jr (n + 1) page (ce + 1) (events @ [Get page, Sleep 0])" .
  have r: "requested_pages (events @ [Get page, Sleep 0]) = requested_pages (events @ [Get page])"
    by (simp add: requested_pages_append requested_pages_get_sleep requested_pages_get)
  from c r assms(3) show ?thesis
    by (auto simp: counted_def)
qed

lemma count_loop_ceiling:
  assumes "count_loop api jr total_pages n page ce vc events = (Too_many_errors, p, vc', ev)"
    and "counted api jr n page ce events"
  shows "max_consecutive_errors \<le> length (requested_pages ev) \<and>
         (\<forall>k < max_consecutive_errors.
            requested_pages ev ! (length (requested_pages ev) - 1 - k) = p \<and>
            fails jr (api (length (requested_pages ev) - 1 - k) p))"
  using assms
proof (induction api jr total_pages n page ce vc events rule: count_loop.induct)
  case (1 api jr total_pages n page ce vc events)
  show ?case
  proof (cases "int page \<le> total_pages")
    case False
    with "1.prems"(1) show ?thesis
      by (subst (asm) count_loop.simps) simp
  next
    case le: True
    show ?thesis
    proof (cases "fails jr (api n page)")
      case f: True
      show ?thesis
      proof (cases "max_consecutive_errors \<le> ce + 1")
        case True
        with "1.prems"(1) f le have "p = page" "ev = events @ [Get page]"
          by (auto simp: count_loop_fail)
        with counted_stop [where api = api and n = n and page = page, OF "1.prems"(2) f True] show ?thesis by simp
      next
        case False
        with "1.prems"(1) f le
        have c: "count_loop api jr total_pages (n + 1) page (ce + 1) vc
                   (events @ [Get page, Sleep (retry_delay (api n page))]) =
                 (Too_many_errors, p, vc', ev)"
          by (simp add: count_loop_fail)
        note i = counted_fail [where api = api and n = n and page = page and d = "retry_delay (api n page)", OF "1.prems"(2) f]
        from f le False c i show ?thesis
          using "1.IH"(1,2,3,4)
          by (auto simp: fails_def retry_delay_def split: fetch_reply.splits option.splits if_splits)
      qed
    next
      case nf: False
      from count_loop_no_fail [where api = api and n = n and page = page, OF nf le "1.prems"(1)]
      obtain r posts where g: "api n page = Reply r" "status_code r = 200"
          "json_body r = Some posts" "posts \<noteq> []" by blast
      from "1.prems"(1) have c: "count_loop api jr total_pages (n + 1) (page + 1) 0
           (vc + length (filter (\<lambda>post. count_extract_youtube_url (wp_content post)) posts))
           (events @ [Get page, Sleep 1]) = (Too_many_errors, p, vc', ev)"
        by (simp add: count_loop_good [where api = api and n = n and page = page, OF g le])
      note i = counted_good [OF "1.prems"(2), of 1]
      from "1.IH"(5) [OF le g(1) _ g(3) g(4) c i] g(2) show ?thesis by simp
    qed
  qed
qed

lemma count_loop_five:
  assumes "int page \<le> total_pages"
    and "\<forall>k < max_consecutive_errors. fails jr (api (n + k) page)"
  shows "count_loop api jr total_pages n page 0 vc events =
         (Too_many_errors, page, vc,
          events @ [Get page, Sleep (retry_delay (api n page)),
                    Get page, Sleep (retry_delay (api (n + 1) page)),
                    Get page, Sleep (retry_delay (api (n + 2) page)),
                    Get page, Sleep (retry_delay (api (n + 3) page)),
                    Get page])"
proof -
  have f: "fails jr (api n page)" "fails jr (api (n + 1) page)"
      "fails jr (api (n + 2) page)" "fails jr (api (n + 3) page)" "fails jr (api (n + 4) page)"
    using assms(2) [THEN spec, of 0] assms(2) [THEN spec, of 1] assms(2) [THEN spec, of 2]
      assms(2) [THEN spec, of 3] assms(2) [THEN spec, of 4]
    by (simp_all add: max_consecutive_errors_def)
  have "count_loop api jr total_pages n page 0 vc events =
        count_loop api jr total_pages (n + 1) page 1 vc
          (events @ [Get page, Sleep (retry_delay (api n page))])"
    using count_loop_fail [where api = api and n = n and page = page and consecutive_errors = 0
        and video_count = vc and events = events, OF f(1) assms(1)]
    by (simp add: max_consecutive_errors_def eval_nat_numeral)
  also have "\<dots> = count_loop api jr total_pages (n + 2) page 2 vc
          (events @ [Get page, Sleep (retry_delay (api n page)),
                     Get page, Sleep (retry_delay (api (n + 1) page))])"
    using count_loop_fail [where api = api and n = "n + 1" and page = page
        and consecutive_errors = 1 and video_count = vc
        and events = "events @ [Get page, Sleep (retry_delay (api n page))]", OF f(2) assms(1)]
    by (simp add: max_consecutive_errors_def eval_nat_numeral)
  also have "\<dots> = count_loop api jr total_pages (n + 3) page 3 vc
          (events @ [Get page, Sleep (retry_delay (api n page)),
                     Get page, Sleep (retry_delay (api (n + 1) page)),
                     Get page, Sleep (retry_delay (api (n + 2) page))])"
    using count_loop_fail [where api = api and n = "n + 2" and page = page
        and consecutive_errors = 2 and video_count = vc
        and events = "events @ [Get page, Sleep (retry_delay (api n page)),
                     Get page, Sleep (retry_delay (api (n + 1) page))]", OF f(3) assms(1)]
    by (simp add: max_consecutive_errors_def eval_nat_numeral)
  also have "\<dots> = count_loop api jr total_pages (n + 4) page 4 vc
          (events @ [Get page, Sleep (retry_delay (api n page)),
                     Get page, Sleep (retry_delay (api (n + 1) page)),
                     Get page, Sleep (retry_delay (api (n + 2) page)),
                     Get page, Sleep (retry_delay (api (n + 3) page))])"
    using count_loop_fail [where api = api and n = "n + 3" and page = page
        and consecutive_errors = 3 and video_count = vc
        and events = "events @ [Get page, Sleep (retry_delay (api n page)),
                     Get page, Sleep (retry_delay (api (n + 1) page)),
                     Get page, Sleep (retry_delay (api (n + 2) page))]", OF f(4) assms(1)]
    by (simp add: max_consecutive_errors_def eval_nat_numeral)
  also have "\<dots> = (Too_many_errors, page, vc,
          events @ [Get page, Sleep (retry_delay (api n page)),
                    Get page, Sleep (retry_delay (api (n + 1) page)),
                    Get page, Sleep (retry_delay (api (n + 2) page)),
                    Get page, Sleep (retry_delay (api (n + 3) page)),
                    Get page])"
    using count_loop_fail [where api = api and n = "n + 4" and page = page
        and consecutive_errors = 4 and video_count = vc
        and events = "events @ [Get page, Sleep (retry_delay (api n page)),
                     Get page, Sleep (retry_delay (api (n + 1) page)),
                     Get page, Sleep (retry_delay (api (n + 2) page)),
                     Get page, Sleep (retry_delay (api (n + 3) page))]", OF f(5) assms(1)]
    by (simp add: max_consecutive_errors_def eval_nat_numeral)
  finally show ?thesis .
qed

text \<open>
  Claim C3, as stated, fails for the pipeline's enumeration: \<^verbatim>\<open>fetch_posts_from_api\<close>
  leaves its loop on the first response that is not 200 and on the first exception.  The
  first request times out and the source would answer the next with a page of posts; the enumeration ends after that one request, with nothing.
\<close>

theorem first_failure_ends_enumeration:
  "transient (flaky_api 0 1) \<and>
   fetch_posts_from_api flaky_api [] None = Some ([], [1]) \<and>
   flaky_api 1 1 = Reply \<lparr>status_code = 200, json_body = Some [video_post],
                           x_wp_totalpages = Number 1\<rparr>"
proof -
  have "transient (flaky_api 0 1)"
    by (simp add: flaky_api_def transient_def)
  moreover have "fetch_posts_from_api flaky_api [] None = Some ([], [1])"
    by code_simp
  moreover have "flaky_api 1 1 = Reply \<lparr>status_code = 200, json_body = Some [video_post],
                           x_wp_totalpages = Number 1\<rparr>"
    by (simp add: flaky_api_def)
  ultimately show ?thesis by blast
qed

text \<open>
  Claim C3, amended.  In the counting script's page loop a failure, and a transient one is
  one, does not end the scan: below the ceiling of 5 failures in a row the same page is
  asked for again after a fixed pause (3 s after a timeout or a request exception, 2 s
  after a status other than 200).  A page that is read sets the counter back to 0.  The
  loop, which the script enters at page 1 with the counter at 0, stops for too many errors
  only when its last 5 requests asked for the same page and all failed, and 5 failures in
  a row from the counter 0 do stop it.  In \<^verbatim>\<open>fetch_posts_from_api\<close> a transient failure
  ends the enumeration at once with the posts collected so far.
\<close>

theorem transient_failure_retry:
  "(transient reply \<longrightarrow> fails json_error_retried reply) \<and>
   (fails json_error_retried (api n page) \<and> int page \<le> total_pages \<and>
    consecutive_errors + 1 < max_consecutive_errors \<longrightarrow>
      count_loop api json_error_retried total_pages n page consecutive_errors video_count events =
      count_loop api json_error_retried total_pages (n + 1) page (consecutive_errors + 1)
        video_count (events @ [Get page, Sleep (retry_delay (api n page))])) \<and>
   (api n page = Reply r \<and> status_code r = 200 \<and> json_body r = Some page_posts \<and>
    page_posts \<noteq> [] \<and> int page \<le> total_pages \<longrightarrow>
      count_loop api json_error_retried total_pages n page consecutive_errors video_count events =
      count_loop api json_error_retried total_pages (n + 1) (page + 1) 0
        (video_count +
           length (filter (\<lambda>post. count_extract_youtube_url (wp_content post)) page_posts))
        (events @ [Get page, Sleep 1])) \<and>
   (page_loop api json_error_retried total_pages = (Too_many_errors, p, vc, ev) \<longrightarrow>
      max_consecutive_errors \<le> length (requested_pages ev) \<and>
      (\<forall>k < max_consecutive_errors.
         requested_pages ev ! (length (requested_pages ev) - 1 - k) = p \<and>
         fails json_error_retried (api (length (requested_pages ev) - 1 - k) p))) \<and>
   (int page \<le> total_pages \<and>
    (\<forall>k < max_consecutive_errors. fails json_error_retried (api (n + k) page)) \<longrightarrow>
      count_loop api json_error_retried total_pages n page 0 video_count events =
      (Too_many_errors, page, video_count,
       events @ [Get page, Sleep (retry_delay (api n page)),
                 Get page, Sleep (retry_delay (api (n + 1) page)),
                 Get page, Sleep (retry_delay (api (n + 2) page)),
                 Get page, Sleep (retry_delay (api (n + 3) page)),
                 Get page])) \<and>
   (transient (api n page) \<and> n = length requested \<longrightarrow>
      fetch_loop api uploaded_videos max_posts page posts requested =
      Some (posts, requested @ [page]))"
proof -
  have c1: "transient reply \<longrightarrow> fails json_error_retried reply"
    by (simp add: transient_fails)
  have c2: "fails json_error_retried (api n page) \<and> int page \<le> total_pages \<and>
    consecutive_errors + 1 < max_consecutive_errors \<longrightarrow>
      count_loop api json_error_retried total_pages n page consecutive_errors video_count events =
      count_loop api json_error_retried total_pages (n + 1) page (consecutive_errors + 1)
        video_count (events @ [Get page, Sleep (retry_delay (api n page))])"
  proof (rule impI)
    assume a: "fails json_error_retried (api n page) \<and> int page \<le> total_pages \<and>
      consecutive_errors + 1 < max_consecutive_errors"
    then have f: "fails json_error_retried (api n page)" and l: "int page \<le> total_pages"
      by simp_all
    from a count_loop_fail [where api = api and n = n and page = page
        and consecutive_errors = consecutive_errors and video_count = video_count
        and events = events, OF f l]
    show "count_loop api json_error_retried total_pages n page consecutive_errors video_count events =
        count_loop api json_error_retried total_pages (n + 1) page (consecutive_errors + 1)
          video_count (events @ [Get page, Sleep (retry_delay (api n page))])"
      by simp
  qed
  have c3: "api n page = Reply r \<and> status_code r = 200 \<and> json_body r = Some page_posts \<and>
    page_posts \<noteq> [] \<and> int page \<le> total_pages \<longrightarrow>
      count_loop api json_error_retried total_pages n page consecutive_errors video_count events =
      count_loop api json_error_retried total_pages (n + 1) (page + 1) 0
        (video_count +
           length (filter (\<lambda>post. count_extract_youtube_url (wp_content post)) page_posts))
        (events @ [Get page, Sleep 1])"
  proof (rule impI)
    assume "api n page = Reply r \<and> status_code r = 200 \<and> json_body r = Some page_posts \<and>
      page_posts \<noteq> [] \<and> int page \<le> total_pages"
    then have g: "api n page = Reply r" "status_code r = 200" "json_body r = Some page_posts"
        "page_posts \<noteq> []" "int page \<le> total_pages"
      by simp_all
    show "count_loop api json_error_retried total_pages n page consecutive_errors video_count events =
        count_loop api json_error_retried total_pages (n + 1) (page + 1) 0
          (video_count +
             length (filter (\<lambda>post. count_extract_youtube_url (wp_content post)) page_posts))
          (events @ [Get page, Sleep 1])"
      by (rule count_loop_good [where api = api and n = n and page = page, OF g])
  qed
  have c4: "page_loop api json_error_retried total_pages = (Too_many_errors, p, vc, ev) \<longrightarrow>
      max_consecutive_errors \<le> length (requested_pages ev) \<and>
      (\<forall>k < max_consecutive_errors.
         requested_pages ev ! (length (requested_pages ev) - 1 - k) = p \<and>
         fails json_error_retried (api (length (requested_pages ev) - 1 - k) p))"
  proof (rule impI)
    assume a: "page_loop api json_error_retried total_pages = (Too_many_errors, p, vc, ev)"
    have c: "counted api json_error_retried 0 1 0 []"
      by (simp add: counted_def requested_pages_def)
    from a have "count_loop api json_error_retried total_pages 0 1 0 0 [] =
        (Too_many_errors, p, vc, ev)"
      by (simp add: page_loop_def)
    from count_loop_ceiling [OF this c]
    show "max_consecutive_errors \<le> length (requested_pages ev) \<and>
        (\<forall>k < max_consecutive_errors.
           requested_pages ev ! (length (requested_pages ev) - 1 - k) = p \<and>
           fails json_error_retried (api (length (requested_pages ev) - 1 - k) p))" .
  qed
  have c5: "int page \<le> total_pages \<and>
    (\<forall>k < max_consecutive_errors. fails json_error_retried (api (n + k) page)) \<longrightarrow>
      count_loop api json_error_retried total_pages n page 0 video_count events =
      (Too_many_errors, page, video_count,
       events @ [Get page, Sleep (retry_delay (api n page)),
                 Get page, Sleep (retry_delay (api (n + 1) page)),
                 Get page, Sleep (retry_delay (api (n + 2) page)),
                 Get page, Sleep (retry_delay (api (n + 3) page)),
                 Get page])"
  proof (rule impI)
    assume "int page \<le> total_pages \<and>
      (\<forall>k < max_consecutive_errors. fails json_error_retried (api (n + k) page))"
    then have l: "int page \<le> total_pages"
      and f: "\<forall>k < max_consecutive_errors. fails json_error_retried (api (n + k) page)"
      by simp_all
    show "count_loop api json_error_retried total_pages n page 0 video_count events =
        (Too_many_errors, page, video_count,
         events @ [Get page, Sleep (retry_delay (api n page)),
                   Get page, Sleep (retry_delay (api (n + 1) page)),
                   Get page, Sleep (retry_delay (api (n + 2) page)),
                   Get page, Sleep (retry_delay (api (n + 3) page)),
                   Get page])"
      by (rule count_loop_five [where api = api and n = n and page = page, OF l f])
  qed
  have c6: "transient (api n page) \<and> n = length requested \<longrightarrow>
      fetch_loop api uploaded_videos max_posts page posts requested =
      Some (posts, requested @ [page])"
    by (subst fetch_loop.simps)
       (auto simp: transient_def split: fetch_reply.splits)
  from c1 c2 c3 c4 c5 c6 show ?thesis
    by (intro conjI)
qed

theorem transient_failure_retry_witness:
  "max_consecutive_errors = 5 \<and>
   transient (dead_api 0 1) \<and>
   fails False (dead_api 0 1) \<and>
   page_loop dead_api False 3 =
     (Too_many_errors, 1, 0,
      [Get 1, Sleep 30, Get 1, Sleep 30, Get 1, Sleep 30, Get 1, Sleep 30, Get 1]) \<and>
   requested_pages [Get 1, Sleep 30, Get 1, Sleep 30, Get 1, Sleep 30, Get 1, Sleep 30, Get 1] =
     [1, 1, 1, 1, 1] \<and>
   count_loop bumpy_api False 2 0 1 0 0 [] =
     count_loop bumpy_api False 2 1 1 1 0 [Get 1, Sleep 30] \<and>
   count_loop bumpy_api False 2 4 1 4 0
       [Get 1, Sleep 30, Get 1, Sleep 30, Get 1, Sleep 30, Get 1, Sleep 30] =
     count_loop bumpy_api False 2 5 2 0 1
       [Get 1, Sleep 30, Get 1, Sleep 30, Get 1, Sleep 30, Get 1, Sleep 30, Get 1, Sleep 1] \<and>
   page_loop bumpy_api False 2 =
     (All_pages, 3, 2,
      [Get 1, Sleep 30, Get 1, Sleep 30, Get 1, Sleep 30, Get 1, Sleep 30, Get 1, Sleep 1,
       Get 2, Sleep 30, Get 2, Sleep 1]) \<and>
   fetch_loop flaky_api [] None 1 [] [] = Some ([], [1])"
proof -
  have m: "max_consecutive_errors = 5"
    by (simp add: max_consecutive_errors_def)
  have tr: "transient (dead_api 0 1)"
    by (simp add: dead_api_def transient_def)
  note d = transient_failure_retry [where api = dead_api and json_error_retried = False
      and total_pages = 3 and n = 0 and page = 1 and consecutive_errors = 0
      and video_count = 0 and events = "[]" and reply = "dead_api 0 1" and p = 1 and vc = 0
      and ev = "[Get 1, Sleep 30, Get 1, Sleep 30, Get 1, Sleep 30, Get 1, Sleep 30, Get 1]"
      and r = "\<lparr>status_code = 200, json_body = None, x_wp_totalpages = Absent\<rparr>"
      and page_posts = "[]" and requested = "[]" and uploaded_videos = "[]"
      and max_posts = None and posts = "[]"]
  from d tr have f: "fails False (dead_api 0 1)"
    by blast
  have all: "\<forall>k < max_consecutive_errors. fails False (dead_api (0 + k) 1)"
    by (simp add: dead_api_def fails_def)
  from d all have "count_loop dead_api False 3 0 1 0 0 [] =
     (Too_many_errors, 1, 0,
      [] @ [Get 1, Sleep (retry_delay (dead_api 0 1)),
            Get 1, Sleep (retry_delay (dead_api (0 + 1) 1)),
            Get 1, Sleep (retry_delay (dead_api (0 + 2) 1)),
            Get 1, Sleep (retry_delay (dead_api (0 + 3) 1)),
            Get 1])"
    by simp
  then have pl: "page_loop dead_api False 3 =
     (Too_many_errors, 1, 0,
      [Get 1, Sleep 30, Get 1, Sleep 30, Get 1, Sleep 30, Get 1, Sleep 30, Get 1])"
    by (simp add: page_loop_def dead_api_def retry_delay_def)
  with d have "max_consecutive_errors \<le> length (requested_pages
      [Get 1, Sleep 30, Get 1, Sleep 30, Get 1, Sleep 30, Get 1, Sleep 30, Get 1])"
    by blast
  have rp: "requested_pages
      [Get 1, Sleep 30, Get 1, Sleep 30, Get 1, Sleep 30, Get 1, Sleep 30, Get 1] =
     [1, 1, 1, 1, 1]"
    by (simp add: requested_pages_def)
  have b0: "fails False (bumpy_api 0 1)"
    by (simp add: bumpy_api_def fails_def)
  have bd: "retry_delay (bumpy_api 0 1) = 30"
    by (simp add: bumpy_api_def retry_delay_def)
  from transient_failure_retry [where api = bumpy_api and json_error_retried = False
      and total_pages = 2 and n = 0 and page = 1 and consecutive_errors = 0
      and video_count = 0 and events = "[]" and reply = "bumpy_api 0 1" and p = 1 and vc = 0
      and ev = "[]"
      and r = "\<lparr>status_code = 200, json_body = None, x_wp_totalpages = Absent\<rparr>"
      and page_posts = "[]" and requested = "[]" and uploaded_videos = "[]"
      and max_posts = None and posts = "[]"]
  have "fails False (bumpy_api 0 1) \<and> int 1 \<le> 2 \<and> 0 + 1 < max_consecutive_errors \<longrightarrow>
     count_loop bumpy_api False 2 0 1 0 0 [] =
     count_loop bumpy_api False 2 (0 + 1) 1 (0 + 1) 0
       ([] @ [Get 1, Sleep (retry_delay (bumpy_api 0 1))])"
    by blast
  with b0 bd m have b1: "count_loop bumpy_api False 2 0 1 0 0 [] =
     count_loop bumpy_api False 2 1 1 1 0 [Get 1, Sleep 30]"
    by simp
  have g: "bumpy_api 4 1 = Reply \<lparr>status_code = 200, json_body = Some [video_post],
                        x_wp_totalpages = Number 2\<rparr>"
    by (simp add: bumpy_api_def)
  have v: "count_extract_youtube_url (wp_content video_post)"
    by code_simp
  from transient_failure_retry [where api = bumpy_api and json_error_retried = False
      and total_pages = 2 and n = 4 and page = 1 and consecutive_errors = 4
      and video_count = 0
      and events = "[Get 1, Sleep 30, Get 1, Sleep 30, Get 1, Sleep 30, Get 1, Sleep 30]"
      and r = "\<lparr>status_code = 200, json_body = Some [video_post],
                        x_wp_totalpages = Number 2\<rparr>"
      and page_posts = "[video_post]" and reply = "bumpy_api 0 1" and p = 1 and vc = 0
      and ev = "[]" and requested = "[]" and uploaded_videos = "[]"
      and max_posts = None and posts = "[]"]
  have "bumpy_api 4 1 = Reply \<lparr>status_code = 200, json_body = Some [video_post],
                        x_wp_totalpages = Number 2\<rparr> \<and>
      status_code \<lparr>status_code = 200, json_body = Some [video_post],
                        x_wp_totalpages = Number 2\<rparr> = 200 \<and>
      json_body \<lparr>status_code = 200, json_body = Some [video_post],
                        x_wp_totalpages = Number 2\<rparr> = Some [video_post] \<and>
      [video_post] \<noteq> [] \<and> int 1 \<le> 2 \<longrightarrow>
     count_loop bumpy_api False 2 4 1 4 0
       [Get 1, Sleep 30, Get 1, Sleep 30, Get 1, Sleep 30, Get 1, Sleep 30] =
     count_loop bumpy_api False 2 (4 + 1) (1 + 1) 0
       (0 + length (filter (\<lambda>post. count_extract_youtube_url (wp_content post)) [video_post]))
       ([Get 1, Sleep 30, Get 1, Sleep 30, Get 1, Sleep 30, Get 1, Sleep 30] @ [Get 1, Sleep 1])"
    by blast
  with g v have b2: "count_loop bumpy_api False 2 4 1 4 0
       [Get 1, Sleep 30, Get 1, Sleep 30, Get 1, Sleep 30, Get 1, Sleep 30] =
     count_loop bumpy_api False 2 5 2 0 1
       [Get 1, Sleep 30, Get 1, Sleep 30, Get 1, Sleep 30, Get 1, Sleep 30, Get 1, Sleep 1]"
    by (simp add: numeral_2_eq_2)
  have b3: "page_loop bumpy_api False 2 =
     (All_pages, 3, 2,
      [Get 1, Sleep 30, Get 1, Sleep 30, Get 1, Sleep 30, Get 1, Sleep 30, Get 1, Sleep 1,
       Get 2, Sleep 30, Get 2, Sleep 1])"
    by code_simp
  have tf: "transient (flaky_api 0 1)"
    by (simp add: flaky_api_def transient_def)
  from transient_failure_retry [where api = flaky_api and n = 0 and page = 1
      and requested = "[]" and uploaded_videos = "[]" and max_posts = None and posts = "[]"
      and json_error_retried = False and total_pages = 1 and consecutive_errors = 0
      and video_count = 0 and events = "[]" and reply = "flaky_api 0 1" and p = 1 and vc = 0
      and ev = "[]"
      and r = "\<lparr>status_code = 200, json_body = None, x_wp_totalpages = Absent\<rparr>"
      and page_posts = "[]"] tf
  have e: "fetch_loop flaky_api [] None 1 [] [] = Some ([], [1])"
    by simp
  from m tr f pl rp b1 b2 b3 e show ?thesis by blast
qed


section \<open>Properties of a run of the worker\<close>





lemmas run_defs =
  upload_worker_def worker_post_def worker_finally_def set_status_def set_world_def commit_def
  download_and_stream_to_s3_def transfer_body_def cleanup_def save_uploaded_videos_def
  load_uploaded_videos_def initial_status_def

lemmas run_inputs =
  good_run_def good_transfer_def idle_system_def post41_def





section \<open>Properties of the order of counting and persisting\<close>

















lemma short_api_posts_resumed:
  "fetch_posts_from_api short_api [''1'', ''2''] None = Some ([post41], [1, 2])"
  by code_simp


text \<open>
  A write that fails after \<^verbatim>\<open>open\<close> has truncated the file: the run ends with one success
  counted and a ledger file that holds no entry, the two it had before included.
\<close>

lemma failed_write_cuts_ledger:
  "successful_uploads (fst (last (run_history disk_full_run None resumed_system))) = 1 \<and>
   ledger_file (snd (last (run_history disk_full_run None resumed_system))) = Some Cut_short \<and>
   ledger_file (world resumed_system) = Some (Entries [''1'', ''2''])"
  by (simp add: run_history_def run_defs run_inputs disk_full_run_def resumed_system_def
      drift_world_def short_api_posts_resumed Let_def)



end
